theory Spec2Isabelle
  imports
    Complex_Main
    "HOL-Library.Sublist"
    "HOL-Library.Multiset"
    "HOL-Library.AList"
    "HOL-Library.Char_ord"
    "HOL-Library.List_Lexorder"
    "HOL-Library.Log_Nat"
begin

section \<open>Numbers\<close>

text \<open>
  A JavaScript \<open>number\<close> that is stored in a trade (\<open>buyPrice\<close>, \<open>sellPrice\<close>,
  \<open>quantity\<close>) is modelled as a rational; a stored field is never \<open>NaN\<close> or infinite.
  The values the code computes may be non-finite: a division by zero gives \<open>NaN\<close> or
  an infinity, and the scan of \<open>stats\<close> starts from \<open>-Infinity\<close> and \<open>Infinity\<close>. Those
  values are modelled by \<open>jsnum\<close>. \<open>timestamp\<close> holds the result of \<open>Date.getTime()\<close>,
  an integer number of milliseconds.

  The functions of the section on statistics compute in exact arithmetic. The section
  on floating-point arithmetic gives the rounding of IEEE-754 double precision, and
  the functions whose results are compared with each other take the rounding as a
  parameter.
\<close>

datatype jsnum = Num rat | NaN | PosInfinity | NegInfinity

text \<open>\<open>a > b\<close>, \<open>a < b\<close> and \<open>a === b\<close> on numbers; every comparison with \<open>NaN\<close> is false.\<close>

fun js_gt :: "jsnum \<Rightarrow> jsnum \<Rightarrow> bool" where
  "js_gt NaN _ = False"
| "js_gt _ NaN = False"
| "js_gt (Num a) (Num b) = (a > b)"
| "js_gt (Num a) PosInfinity = False"
| "js_gt (Num a) NegInfinity = True"
| "js_gt PosInfinity (Num b) = True"
| "js_gt PosInfinity PosInfinity = False"
| "js_gt PosInfinity NegInfinity = True"
| "js_gt NegInfinity _ = False"

definition js_lt :: "jsnum \<Rightarrow> jsnum \<Rightarrow> bool" where
  "js_lt a b = js_gt b a"

definition js_strict_eq :: "jsnum \<Rightarrow> jsnum \<Rightarrow> bool" where
  "js_strict_eq a b = (a \<noteq> NaN \<and> a = b)"

text \<open>\<open>a / b\<close> on finite numbers: a zero divisor gives \<open>NaN\<close> or an infinity, never an exception.\<close>

definition js_divide :: "rat \<Rightarrow> rat \<Rightarrow> jsnum" where
  "js_divide a b =
     (if b \<noteq> 0 then Num (a / b)
      else if a = 0 then NaN
      else if a > 0 then PosInfinity
      else NegInfinity)"

text \<open>\<open>x * c\<close> for a computed \<open>x\<close> and a finite \<open>c\<close>.\<close>

fun js_times :: "jsnum \<Rightarrow> rat \<Rightarrow> jsnum" where
  "js_times (Num a) c = Num (a * c)"
| "js_times NaN c = NaN"
| "js_times PosInfinity c = (if c = 0 then NaN else if c > 0 then PosInfinity else NegInfinity)"
| "js_times NegInfinity c = (if c = 0 then NaN else if c > 0 then NegInfinity else PosInfinity)"

text \<open>\<open>Number.isFinite\<close>: neither \<open>NaN\<close> nor an infinity.\<close>

fun is_finite :: "jsnum \<Rightarrow> bool" where
  "is_finite (Num _) = True"
| "is_finite _ = False"

text \<open>\<open>ToNumber\<close> on a \<open>number | null\<close>: \<open>null\<close> converts to \<open>0\<close>.\<close>

fun to_number :: "rat option \<Rightarrow> rat" where
  "to_number None = 0"
| "to_number (Some x) = x"

section \<open>Data model (types.ts)\<close>

text \<open>
  \<open>Omit<Trade, 'id' | 'timestamp'>\<close>, the value the trade form hands to \<open>handleSaveTrade\<close>,
  is the parent record; \<open>Trade\<close> extends it with \<open>id\<close> (here \<open>trade_id\<close>) and
  \<open>timestamp\<close>.
\<close>

record tradeData =
  symbol :: string
  buyPrice :: rat
  sellPrice :: "rat option"
  quantity :: rat
  date :: string
  remarks :: "string option"

record trade = tradeData +
  trade_id :: string
  timestamp :: int

record tradeStats =
  totalProfit :: jsnum
  avgBuyPrice :: jsnum
  avgSellPrice :: jsnum
  avgProfitPerTrade :: jsnum
  winRate :: jsnum
  totalTrades :: nat
  openPositions :: nat
  bestTrade :: jsnum
  worstTrade :: jsnum

text \<open>The member \<open>ALL\<close> is written \<open>ALL_tf\<close>.\<close>

datatype timeFrame = ALL_tf | TODAY | WEEK | MONTH | YTD | YEAR | CUSTOM

section \<open>Statistics calculation (App.tsx, \<open>stats\<close>)\<close>

text \<open>\<open>(sellPrice - t.buyPrice) * t.quantity\<close>, the expression every reducer computes.\<close>

definition profit :: "trade \<Rightarrow> rat" where
  "profit t = (to_number (sellPrice t) - buyPrice t) * quantity t"

text \<open>\<open>filteredTrades.filter(t => t.sellPrice !== null)\<close>\<close>

definition closedTrades :: "trade list \<Rightarrow> trade list" where
  "closedTrades ts = filter (\<lambda>t. sellPrice t \<noteq> None) ts"

text \<open>The five variables that the \<open>forEach\<close> over the closed trades updates.\<close>

record scan =
  s_totalProfit :: rat
  s_totalSellPrice :: rat
  s_wins :: nat
  s_best :: jsnum
  s_worst :: jsnum

definition scan_init :: scan where
  "scan_init = \<lparr>s_totalProfit = 0, s_totalSellPrice = 0, s_wins = 0,
                s_best = NegInfinity, s_worst = PosInfinity\<rparr>"

definition scan_step :: "trade \<Rightarrow> scan \<Rightarrow> scan" where
  "scan_step t s =
     (let sp = to_number (sellPrice t);
          p = (sp - buyPrice t) * quantity t
      in \<lparr>s_totalProfit = s_totalProfit s + p,
          s_totalSellPrice = s_totalSellPrice s + sp,
          s_wins = (if p > 0 then s_wins s + 1 else s_wins s),
          s_best = (if js_gt (Num p) (s_best s) then Num p else s_best s),
          s_worst = (if js_lt (Num p) (s_worst s) then Num p else s_worst s)\<rparr>)"

definition stats :: "trade list \<Rightarrow> tradeStats" where
  "stats filteredTrades =
     (if length filteredTrades = 0 then
        \<lparr>totalProfit = Num 0, avgBuyPrice = Num 0, avgSellPrice = Num 0,
         avgProfitPerTrade = Num 0, winRate = Num 0, totalTrades = 0,
         openPositions = 0, bestTrade = Num 0, worstTrade = Num 0\<rparr>
      else
        (let n = length filteredTrades;
             closed = closedTrades filteredTrades;
             totalBuyPrice = foldl (\<lambda>sum t. sum + buyPrice t) 0 filteredTrades;
             s = fold scan_step closed scan_init
         in \<lparr>totalProfit = Num (s_totalProfit s),
             avgBuyPrice = (if n > 0 then js_divide totalBuyPrice (of_nat n) else Num 0),
             avgSellPrice =
               (if length closed > 0
                then js_divide (s_totalSellPrice s) (of_nat (length closed)) else Num 0),
             avgProfitPerTrade =
               (if length closed > 0
                then js_divide (s_totalProfit s) (of_nat (length closed)) else Num 0),
             winRate =
               (if length closed > 0
                then js_times (js_divide (of_nat (s_wins s)) (of_nat (length closed))) 100
                else Num 0),
             totalTrades = n,
             openPositions = n - length closed,
             bestTrade = (if js_strict_eq (s_best s) NegInfinity then Num 0 else s_best s),
             worstTrade = (if js_strict_eq (s_worst s) PosInfinity then Num 0 else s_worst s)\<rparr>))"

text \<open>The inputs of Scenario 1 and Scenario 2.\<close>

definition scenario1 :: "trade list" where
  "scenario1 =
     [\<lparr>symbol = ''AAPL'', buyPrice = 100, sellPrice = Some 150, quantity = 10,
       date = ''2024-01-01'', remarks = None, trade_id = ''a'', timestamp = 1704067200000\<rparr>,
      \<lparr>symbol = ''AAPL'', buyPrice = 50, sellPrice = Some 40, quantity = 5,
       date = ''2024-01-02'', remarks = None, trade_id = ''b'', timestamp = 1704153600000\<rparr>]"

definition scenario2 :: "trade list" where
  "scenario2 =
     [\<lparr>symbol = ''AAPL'', buyPrice = 10, sellPrice = None, quantity = 1,
       date = ''2024-01-01'', remarks = None, trade_id = ''a'', timestamp = 1704067200000\<rparr>]"

text \<open>A single closed trade sold at a loss.\<close>

definition losing_trade :: trade where
  "losing_trade =
     \<lparr>symbol = ''AAPL'', buyPrice = 50, sellPrice = Some 40, quantity = 5,
      date = ''2024-01-02'', remarks = None, trade_id = ''a'', timestamp = 1704153600000\<rparr>"

section \<open>Floating-point arithmetic\<close>

text \<open>
  A JavaScript number is an IEEE-754 double, and \<open>+\<close>, \<open>-\<close>, \<open>*\<close> and \<open>/\<close> give the
  double nearest to the exact result, the one with the even significand at a tie. A
  rounding is a function \<open>rnd\<close> from the exact result to the number that the operation
  gives: \<open>round_double\<close> for the arithmetic of the language, and the identity for exact
  arithmetic. Results of magnitude \<open>2^1024\<close> or more, which overflow to an infinity, are
  outside the model.
\<close>

definition round_half_even :: "rat \<Rightarrow> int" where
  "round_half_even x =
     (let f = \<lfloor>x\<rfloor>; r = x - of_int f
      in if r < 1 / 2 then f
         else if 1 / 2 < r then f + 1
         else if even f then f else f + 1)"

definition pow2 :: "int \<Rightarrow> rat" where
  "pow2 e = (if 0 \<le> e then 2 ^ nat e else 1 / 2 ^ nat (- e))"

text \<open>For \<open>x > 0\<close>, the exponent \<open>e\<close> with \<open>2^e \<le> x < 2^(e + 1)\<close>.\<close>

definition floor_log2 :: "rat \<Rightarrow> int" where
  "floor_log2 x =
     (let (n, d) = quotient_of x; e = bitlen n - bitlen d
      in if pow2 e \<le> x then e else e - 1)"

text \<open>
  The double nearest to \<open>x\<close>: a multiple of \<open>2^(e - 52)\<close>, where \<open>e\<close> is the exponent of
  \<open>x\<close>, and at least -1022 (below \<open>2^(-1022)\<close> the doubles are the multiples of
  \<open>2^(-1074)\<close>).
\<close>

definition round_double :: "rat \<Rightarrow> rat" where
  "round_double x =
     (if x = 0 then 0
      else (let e = max (floor_log2 \<bar>x\<bar>) (- 1022); u = pow2 (e - 52)
            in of_int (round_half_even (x / u)) * u))"

text \<open>\<open>(sellPrice - t.buyPrice) * t.quantity\<close> with each operation rounded.\<close>

definition profit_r :: "(rat \<Rightarrow> rat) \<Rightarrow> trade \<Rightarrow> rat" where
  "profit_r rnd t = rnd (rnd (to_number (sellPrice t) - buyPrice t) * quantity t)"

text \<open>\<open>a / b\<close> and \<open>x * c\<close> with the result rounded.\<close>

definition js_divide_r :: "(rat \<Rightarrow> rat) \<Rightarrow> rat \<Rightarrow> rat \<Rightarrow> jsnum" where
  "js_divide_r rnd a b =
     (if b \<noteq> 0 then Num (rnd (a / b))
      else if a = 0 then NaN
      else if a > 0 then PosInfinity
      else NegInfinity)"

fun js_times_r :: "(rat \<Rightarrow> rat) \<Rightarrow> jsnum \<Rightarrow> rat \<Rightarrow> jsnum" where
  "js_times_r rnd (Num a) c = Num (rnd (a * c))"
| "js_times_r rnd NaN c = NaN"
| "js_times_r rnd PosInfinity c =
     (if c = 0 then NaN else if c > 0 then PosInfinity else NegInfinity)"
| "js_times_r rnd NegInfinity c =
     (if c = 0 then NaN else if c > 0 then NegInfinity else PosInfinity)"

text \<open>
  \<open>stats\<close> with each operation rounded: \<open>stats_r rnd\<close> is \<open>stats\<close> with \<open>rnd\<close> applied to
  the result of every addition, subtraction, multiplication and division of numbers
  that need not be integers. The counts \<open>wins\<close> and \<open>length\<close> are exact.
\<close>

definition scan_step_r :: "(rat \<Rightarrow> rat) \<Rightarrow> trade \<Rightarrow> scan \<Rightarrow> scan" where
  "scan_step_r rnd t s =
     (let sp = to_number (sellPrice t);
          p = rnd (rnd (sp - buyPrice t) * quantity t)
      in \<lparr>s_totalProfit = rnd (s_totalProfit s + p),
          s_totalSellPrice = rnd (s_totalSellPrice s + sp),
          s_wins = (if p > 0 then s_wins s + 1 else s_wins s),
          s_best = (if js_gt (Num p) (s_best s) then Num p else s_best s),
          s_worst = (if js_lt (Num p) (s_worst s) then Num p else s_worst s)\<rparr>)"

definition stats_r :: "(rat \<Rightarrow> rat) \<Rightarrow> trade list \<Rightarrow> tradeStats" where
  "stats_r rnd filteredTrades =
     (if length filteredTrades = 0 then
        \<lparr>totalProfit = Num 0, avgBuyPrice = Num 0, avgSellPrice = Num 0,
         avgProfitPerTrade = Num 0, winRate = Num 0, totalTrades = 0,
         openPositions = 0, bestTrade = Num 0, worstTrade = Num 0\<rparr>
      else
        (let n = length filteredTrades;
             closed = closedTrades filteredTrades;
             totalBuyPrice = foldl (\<lambda>sum t. rnd (sum + buyPrice t)) 0 filteredTrades;
             s = fold (scan_step_r rnd) closed scan_init
         in \<lparr>totalProfit = Num (s_totalProfit s),
             avgBuyPrice = (if n > 0 then js_divide_r rnd totalBuyPrice (of_nat n) else Num 0),
             avgSellPrice =
               (if length closed > 0
                then js_divide_r rnd (s_totalSellPrice s) (of_nat (length closed)) else Num 0),
             avgProfitPerTrade =
               (if length closed > 0
                then js_divide_r rnd (s_totalProfit s) (of_nat (length closed)) else Num 0),
             winRate =
               (if length closed > 0
                then js_times_r rnd
                       (js_divide_r rnd (of_nat (s_wins s)) (of_nat (length closed))) 100
                else Num 0),
             totalTrades = n,
             openPositions = n - length closed,
             bestTrade = (if js_strict_eq (s_best s) NegInfinity then Num 0 else s_best s),
             worstTrade = (if js_strict_eq (s_worst s) PosInfinity then Num 0 else s_worst s)\<rparr>))"

text \<open>
  Three closed trades of one share bought at 1 and sold at 1.2, 3.5 and 1.1; each
  price is the double that the decimal literal denotes. The second trade is dated a
  day before the other two.
\<close>

definition rounding_trades :: "trade list" where
  "rounding_trades =
     [\<lparr>symbol = ''AAPL'', buyPrice = 1, sellPrice = Some (round_double (12 / 10)), quantity = 1,
       date = ''2024-01-02'', remarks = None, trade_id = ''a'', timestamp = 1704153600000\<rparr>,
      \<lparr>symbol = ''AAPL'', buyPrice = 1, sellPrice = Some (round_double (35 / 10)), quantity = 1,
       date = ''2024-01-01'', remarks = None, trade_id = ''b'', timestamp = 1704067200000\<rparr>,
      \<lparr>symbol = ''AAPL'', buyPrice = 1, sellPrice = Some (round_double (11 / 10)), quantity = 1,
       date = ''2024-01-02'', remarks = None, trade_id = ''c'', timestamp = 1704153600000\<rparr>]"

section \<open>Dates\<close>

text \<open>
  A \<open>Date\<close> is its time value: \<open>Some t\<close> for \<open>t\<close> milliseconds since the epoch, \<open>None\<close>
  for an Invalid Date (whose \<open>getTime()\<close> is \<open>NaN\<close>). Day numbers follow the
  ECMAScript definitions \<open>DayFromYear\<close>, \<open>InLeapYear\<close> and \<open>MakeDay\<close>; months count from 0.

  The environment is a \<open>clock\<close>. It holds the time zone as two functions, in
  milliseconds: \<open>utc_offset t\<close> is the offset of local time from UTC that is in force at
  the UTC time value \<open>t\<close>, and \<open>local_offset t\<close> is the offset by which the local time
  value \<open>t\<close> is read (at a local time that occurs twice or not at all, ECMAScript takes
  the offset in force before the change). It also holds the local calendar fields of
  \<open>new Date()\<close>, the only parts of the current time that the code reads
  (\<open>getFullYear\<close>, \<open>getMonth\<close>, \<open>getDate\<close>).
\<close>

record clock =
  utc_offset :: "int \<Rightarrow> int"
  local_offset :: "int \<Rightarrow> int"
  now_fullYear :: int
  now_month :: int
  now_date :: int

text \<open>\<open>LocalTime(t)\<close> and \<open>UTC(t)\<close> of ECMAScript.\<close>

definition LocalTime :: "clock \<Rightarrow> int \<Rightarrow> int" where
  "LocalTime clk t = t + utc_offset clk t"

definition UTC :: "clock \<Rightarrow> int \<Rightarrow> int" where
  "UTC clk t = t - local_offset clk t"

definition msPerDay :: int where
  "msPerDay = 86400000"

definition maxTime :: int where
  "maxTime = 8640000000000000"

definition TimeClip :: "int \<Rightarrow> int option" where
  "TimeClip t = (if \<bar>t\<bar> \<le> maxTime then Some t else None)"

definition DayFromYear :: "int \<Rightarrow> int" where
  "DayFromYear y =
     365 * (y - 1970) + (y - 1969) div 4 - (y - 1901) div 100 + (y - 1601) div 400"

definition InLeapYear :: "int \<Rightarrow> bool" where
  "InLeapYear y = (y mod 4 = 0 \<and> (y mod 100 \<noteq> 0 \<or> y mod 400 = 0))"

text \<open>Days of the year that precede the first of month \<open>m\<close> (0 to 11).\<close>

definition daysBeforeMonth :: "bool \<Rightarrow> int \<Rightarrow> int" where
  "daysBeforeMonth leap m =
     [0, 31, 59, 90, 120, 151, 181, 212, 243, 273, 304, 334] ! nat m
       + (if leap \<and> 2 \<le> m then 1 else 0)"

definition DaysInMonth :: "int \<Rightarrow> int \<Rightarrow> int" where
  "DaysInMonth y m =
     (if m = 1 then (if InLeapYear y then 29 else 28)
      else if m \<in> {3, 5, 8, 10} then 30 else 31)"

text \<open>\<open>MakeDay(year, month, date)\<close>: a month outside 0..11 carries into the year, and a
  day outside the month carries into the neighbouring months.\<close>

definition MakeDay :: "int \<Rightarrow> int \<Rightarrow> int \<Rightarrow> int" where
  "MakeDay year month dt =
     (let ym = year + month div 12; mn = month mod 12
      in DayFromYear ym + daysBeforeMonth (InLeapYear ym) mn + dt - 1)"

text \<open>The local midnight that starts day \<open>dt\<close> of month \<open>month\<close> of \<open>year\<close>, as a UTC time value.\<close>

definition makeLocal :: "clock \<Rightarrow> int \<Rightarrow> int \<Rightarrow> int \<Rightarrow> int option" where
  "makeLocal clk year month dt = TimeClip (UTC clk (MakeDay year month dt * msPerDay))"

text \<open>\<open>new Date(year, monthIndex, day)\<close>: a year from 0 to 99 stands for 1900 + year.\<close>

definition fullYear :: "int \<Rightarrow> int" where
  "fullYear y = (if 0 \<le> y \<and> y \<le> 99 then 1900 + y else y)"

definition Date_ymd :: "clock \<Rightarrow> int \<Rightarrow> int \<Rightarrow> int \<Rightarrow> int option" where
  "Date_ymd clk year month dt = makeLocal clk (fullYear year) month dt"

text \<open>
  The year, the month (0 to 11) and the day of the month of a day number.
  \<open>YearFromDay\<close> is the year \<open>y\<close> with \<open>DayFromYear y \<le> day < DayFromYear (y + 1)\<close>; it
  is found next to the estimate that a year of 365.2425 days gives.
\<close>

definition YearFromDay :: "int \<Rightarrow> int" where
  "YearFromDay day =
     (let e = 1970 + (day * 400) div 146097
      in if DayFromYear (e + 1) \<le> day then e + 1
         else if DayFromYear e \<le> day then e
         else e - 1)"

definition MonthFromDay :: "int \<Rightarrow> int" where
  "MonthFromDay day =
     (let y = YearFromDay day; n = day - DayFromYear y
      in case find (\<lambda>m. daysBeforeMonth (InLeapYear y) m \<le> n) [11, 10, 9, 8, 7, 6, 5, 4, 3, 2, 1, 0] of
           Some m \<Rightarrow> m
         | None \<Rightarrow> 0)"

definition DateFromDay :: "int \<Rightarrow> int" where
  "DateFromDay day =
     (let y = YearFromDay day
      in day - DayFromYear y - daysBeforeMonth (InLeapYear y) (MonthFromDay day) + 1)"

text \<open>\<open>d.getFullYear()\<close> and \<open>d.getDate()\<close>: fields of the local time of \<open>d\<close>; \<open>None\<close> is
  the \<open>NaN\<close> of an Invalid Date.\<close>

definition getFullYear :: "clock \<Rightarrow> int option \<Rightarrow> int option" where
  "getFullYear clk d =
     (case d of None \<Rightarrow> None | Some t \<Rightarrow> Some (YearFromDay (LocalTime clk t div msPerDay)))"

definition getDate :: "clock \<Rightarrow> int option \<Rightarrow> int option" where
  "getDate clk d =
     (case d of None \<Rightarrow> None | Some t \<Rightarrow> Some (DateFromDay (LocalTime clk t div msPerDay)))"

text \<open>
  \<open>d.setDate(dt)\<close>: the day \<open>dt\<close> of the local month of \<open>d\<close>, at the local time of day
  of \<open>d\<close>. An Invalid Date stays invalid, and a \<open>NaN\<close> argument makes the date invalid.
\<close>

definition setDate :: "clock \<Rightarrow> int option \<Rightarrow> int option \<Rightarrow> int option" where
  "setDate clk d dt =
     (case (d, dt) of
        (Some t, Some n) \<Rightarrow>
          (let local = LocalTime clk t; day = local div msPerDay
           in TimeClip
                (UTC clk
                   (MakeDay (YearFromDay day) (MonthFromDay day) n * msPerDay
                      + local mod msPerDay)))
      | _ \<Rightarrow> None)"

text \<open>
  \<open>d.setFullYear(y)\<close>: the local month, day and time of day of \<open>d\<close> in the year \<open>y\<close>;
  for an Invalid Date the fields are those of the time value 0.
\<close>

definition setFullYear :: "clock \<Rightarrow> int option \<Rightarrow> int option \<Rightarrow> int option" where
  "setFullYear clk d y =
     (case y of
        None \<Rightarrow> None
      | Some year \<Rightarrow>
          (let local = (case d of None \<Rightarrow> 0 | Some t \<Rightarrow> LocalTime clk t);
               day = local div msPerDay
           in TimeClip
                (UTC clk
                   (MakeDay year (MonthFromDay day) (DateFromDay day) * msPerDay
                      + local mod msPerDay))))"

text \<open>\<open>d.setHours(23, 59, 59, 999)\<close>: the last millisecond of the local day that holds \<open>d\<close>.\<close>

definition setHours_23_59_59_999 :: "clock \<Rightarrow> int option \<Rightarrow> int option" where
  "setHours_23_59_59_999 clk d =
     (case d of
        None \<Rightarrow> None
      | Some t \<Rightarrow>
          (let localDay = LocalTime clk t div msPerDay
           in TimeClip
                (UTC clk
                   (localDay * msPerDay + (((23 * 60 + 59) * 60 + 59) * 1000 + 999)))))"

text \<open>
  \<open>new Date(s)\<close> for a string: the model reads the date-only ISO form \<open>YYYY-MM-DD\<close>,
  which the date inputs of the form and \<open>toISOString().split('T')[0]\<close> produce, and
  which ECMAScript reads as midnight UTC. A month or day out of range gives an Invalid
  Date. The other formats that \<open>Date.parse\<close> accepts are outside the model and are read
  as invalid.
\<close>

definition digit :: "char \<Rightarrow> int option" where
  "digit c =
     (let n = (of_char c :: nat) in if 48 \<le> n \<and> n \<le> 57 then Some (int n - 48) else None)"

text \<open>The number that a non-empty string of decimal digits writes.\<close>

fun digits_from :: "int \<Rightarrow> string \<Rightarrow> int option" where
  "digits_from acc [] = Some acc"
| "digits_from acc (c # cs) =
     (case digit c of None \<Rightarrow> None | Some d \<Rightarrow> digits_from (10 * acc + d) cs)"

definition digits :: "string \<Rightarrow> int option" where
  "digits s = (if s = [] then None else digits_from 0 s)"

text \<open>The year, month (1 to 12) and day that a string of the form \<open>YYYY-MM-DD\<close> names.\<close>

definition parse_ymd :: "string \<Rightarrow> (int \<times> int \<times> int) option" where
  "parse_ymd s =
     (if length s = 10 \<and> s ! 4 = CHR ''-'' \<and> s ! 7 = CHR ''-'' then
        (case (digits (take 4 s), digits (take 2 (drop 5 s)), digits (drop 8 s)) of
           (Some y, Some m, Some d) \<Rightarrow>
             (if 1 \<le> m \<and> m \<le> 12 \<and> 1 \<le> d \<and> d \<le> DaysInMonth y (m - 1)
              then Some (y, m, d) else None)
         | _ \<Rightarrow> None)
      else None)"

definition Date_parse :: "string \<Rightarrow> int option" where
  "Date_parse s =
     (case parse_ymd s of
        None \<Rightarrow> None
      | Some (y, m, d) \<Rightarrow> TimeClip (MakeDay y (m - 1) d * msPerDay))"

text \<open>
  The start of calendar day \<open>s\<close> in local time: the date that \<open>formatDate\<close> of TradeCharts
  builds from the parts of the string, \<open>new Date(y, m - 1, d)\<close>, "as local time to ensure
  day doesn't shift".
\<close>

definition localMidnight :: "clock \<Rightarrow> string \<Rightarrow> int option" where
  "localMidnight clk s =
     (case parse_ymd s of
        None \<Rightarrow> None
      | Some (y, m, d) \<Rightarrow> Date_ymd clk y (m - 1) d)"

text \<open>\<open>x >= d.getTime()\<close> and \<open>x <= d.getTime()\<close>: false when the date is invalid.\<close>

fun time_ge :: "int \<Rightarrow> int option \<Rightarrow> bool" where
  "time_ge x None = False"
| "time_ge x (Some t) = (x \<ge> t)"

fun time_le :: "int \<Rightarrow> int option \<Rightarrow> bool" where
  "time_le x None = False"
| "time_le x (Some t) = (x \<le> t)"

section \<open>Strings\<close>

text \<open>
  A string is a list of 8-bit characters. \<open>toUpperCase\<close> maps the letters a to z and
  leaves every other character as it is (the mapping of characters beyond ASCII is
  outside the model). \<open>includes\<close> looks for the argument at every position.
\<close>

definition upper_char :: "char \<Rightarrow> char" where
  "upper_char c =
     (let n = (of_char c :: nat) in if 97 \<le> n \<and> n \<le> 122 then char_of (n - 32) else c)"

definition toUpperCase :: "string \<Rightarrow> string" where
  "toUpperCase s = map upper_char s"

fun includes_str :: "string \<Rightarrow> string \<Rightarrow> bool" where
  "includes_str [] sub = (sub = [])"
| "includes_str (c # cs) sub = (prefix sub (c # cs) \<or> includes_str cs sub)"

section \<open>Filtering logic (App.tsx, \<open>filteredTrades\<close>)\<close>

text \<open>
  Lines 160 to 189: \<open>start\<close> and \<open>end\<close> begin as the epoch and the largest date, and the
  \<open>switch\<close> on the time frame replaces them. The \<open>switch\<close> has no case for \<open>ALL\<close>.
\<close>

definition resolve_window :: "clock \<Rightarrow> timeFrame \<Rightarrow> string \<Rightarrow> string \<Rightarrow> int option \<times> int option" where
  "resolve_window clk timeFrame customStartDate customEndDate =
     (let today = Date_ymd clk (now_fullYear clk) (now_month clk) (now_date clk);
          start = TimeClip 0;
          end = TimeClip 8640000000000000
      in case timeFrame of
           TODAY \<Rightarrow> (today, end)
         | WEEK \<Rightarrow> (setDate clk today (map_option (\<lambda>n. n - 7) (getDate clk today)), end)
         | MONTH \<Rightarrow> (setDate clk today (map_option (\<lambda>n. n - 30) (getDate clk today)), end)
         | YTD \<Rightarrow> (Date_ymd clk (now_fullYear clk) 0 1, end)
         | YEAR \<Rightarrow>
             (setFullYear clk today (map_option (\<lambda>y. y - 1) (getFullYear clk today)), end)
         | CUSTOM \<Rightarrow>
             (if customStartDate \<noteq> [] then Date_parse customStartDate else start,
              if customEndDate \<noteq> []
              then setHours_23_59_59_999 clk (Date_parse customEndDate) else end)
         | ALL_tf \<Rightarrow> (start, end))"

definition filteredTrades ::
    "clock \<Rightarrow> trade list \<Rightarrow> string \<Rightarrow> timeFrame \<Rightarrow> string \<Rightarrow> string \<Rightarrow> trade list" where
  "filteredTrades clk trades stockFilter timeFrame customStartDate customEndDate =
     (let result =
            (if stockFilter \<noteq> []
             then filter (\<lambda>t. includes_str (symbol t) (toUpperCase stockFilter)) trades
             else trades)
      in if timeFrame \<noteq> ALL_tf then
           (let (start, end) = resolve_window clk timeFrame customStartDate customEndDate
            in filter (\<lambda>t. time_ge (timestamp t) start \<and> time_le (timestamp t) end) result)
         else result)"

section \<open>The trade repository (App.tsx, \<open>handleSaveTrade\<close>, \<open>handleDeleteTrade\<close>)\<close>

record app_state =
  trades :: "trade list"
  editingTrade :: "trade option"
  isModalOpen :: bool

text \<open>
  \<open>newId\<close> is the result of \<open>generateId()\<close>. The timestamp is
  \<open>new Date(tradeData.date).getTime()\<close>; for an Invalid Date that is \<open>NaN\<close>, which a
  \<open>timestamp\<close> of the model cannot hold, and the result is \<open>None\<close>. The date input of
  the form supplies only strings that parse.
\<close>

definition handleSaveTrade :: "string \<Rightarrow> tradeData \<Rightarrow> app_state \<Rightarrow> app_state option" where
  "handleSaveTrade newId tradeData st =
     (case Date_parse (date tradeData) of
        None \<Rightarrow> None
      | Some ts \<Rightarrow>
          Some
            (st\<lparr>trades :=
                  (case editingTrade st of
                     Some e \<Rightarrow>
                       map (\<lambda>t. if trade_id t = trade_id e
                                then t\<lparr>symbol := symbol tradeData, buyPrice := buyPrice tradeData,
                                       sellPrice := sellPrice tradeData,
                                       quantity := quantity tradeData, date := date tradeData,
                                       remarks := remarks tradeData, timestamp := ts\<rparr>
                                else t)
                         (trades st)
                   | None \<Rightarrow>
                       trades st @
                         [\<lparr>symbol = symbol tradeData, buyPrice = buyPrice tradeData,
                           sellPrice = sellPrice tradeData, quantity = quantity tradeData,
                           date = date tradeData, remarks = remarks tradeData,
                           trade_id = newId, timestamp = ts\<rparr>]),
                 isModalOpen := False, editingTrade := None\<rparr>))"

text \<open>\<open>confirmed\<close> is the answer of \<open>window.confirm\<close>.\<close>

definition handleDeleteTrade :: "bool \<Rightarrow> string \<Rightarrow> app_state \<Rightarrow> app_state" where
  "handleDeleteTrade confirmed i st =
     (if confirmed then st\<lparr>trades := filter (\<lambda>t. trade_id t \<noteq> i) (trades st)\<rparr> else st)"

text \<open>
  Scenario 4: two trades recorded through \<open>handleSaveTrade\<close>, dated 2024-02-05 and
  2024-02-06.
\<close>

definition feb5_data :: tradeData where
  "feb5_data = \<lparr>symbol = ''AAPL'', buyPrice = 100, sellPrice = None, quantity = 1,
                 date = ''2024-02-05'', remarks = None\<rparr>"

definition feb6_data :: tradeData where
  "feb6_data = \<lparr>symbol = ''MSFT'', buyPrice = 300, sellPrice = None, quantity = 2,
                 date = ''2024-02-06'', remarks = None\<rparr>"

definition empty_state :: app_state where
  "empty_state = \<lparr>trades = [], editingTrade = None, isModalOpen = True\<rparr>"

definition scenario4 :: "trade list" where
  "scenario4 =
     (case handleSaveTrade ''t5'' feb5_data empty_state of
        None \<Rightarrow> []
      | Some s1 \<Rightarrow>
          (case handleSaveTrade ''t6'' feb6_data s1 of
             None \<Rightarrow> []
           | Some s2 \<Rightarrow> trades s2))"

text \<open>
  A clock with one offset at all times. On 2024-02-05, \<open>clock_minus5\<close> is five hours
  behind UTC and \<open>clock_utc\<close> is at UTC.
\<close>

definition fixed_clock :: "int \<Rightarrow> int \<Rightarrow> int \<Rightarrow> int \<Rightarrow> clock" where
  "fixed_clock off y m d =
     \<lparr>utc_offset = (\<lambda>t. off), local_offset = (\<lambda>t. off),
      now_fullYear = y, now_month = m, now_date = d\<rparr>"

definition clock_minus5 :: clock where
  "clock_minus5 = fixed_clock (- 18000000) 2024 1 5"

definition clock_utc :: clock where
  "clock_utc = fixed_clock 0 2024 1 5"

text \<open>
  The Azores on 2024-10-27: local time is UTC until 01:00 UTC of that day, when summer
  time ends and the clocks go back to 00:00, and one hour behind UTC from then on. The
  local hour from 00:00 to 01:00 of that day occurs twice and is read with the offset
  in force before the change.
\<close>

definition clock_azores :: clock where
  "clock_azores =
     \<lparr>utc_offset = (\<lambda>t. if t < 1729990800000 then 0 else - 3600000),
      local_offset = (\<lambda>t. if t < 1729990800000 then 0 else - 3600000),
      now_fullYear = 2024, now_month = 9, now_date = 27\<rparr>"

text \<open>Trades recorded through \<open>handleSaveTrade\<close> for 2024-10-28 and for 1969-12-31.\<close>

definition oct28_data :: tradeData where
  "oct28_data = \<lparr>symbol = ''AAPL'', buyPrice = 100, sellPrice = None, quantity = 1,
                  date = ''2024-10-28'', remarks = None\<rparr>"

definition dec31_data :: tradeData where
  "dec31_data = \<lparr>symbol = ''AAPL'', buyPrice = 100, sellPrice = None, quantity = 1,
                  date = ''1969-12-31'', remarks = None\<rparr>"

definition saved_alone :: "tradeData \<Rightarrow> trade list" where
  "saved_alone td =
     (case handleSaveTrade ''t1'' td empty_state of None \<Rightarrow> [] | Some s \<Rightarrow> trades s)"

text \<open>A trade dated 2100-01-01, later than both clocks.\<close>

definition future_trade :: trade where
  "future_trade =
     \<lparr>symbol = ''NVDA'', buyPrice = 400, sellPrice = None, quantity = 3,
      date = ''2100-01-01'', remarks = None, trade_id = ''f'', timestamp = 4102444800000\<rparr>"

section \<open>Seed data (App.tsx, \<open>generateLargeDataset\<close>)\<close>

text \<open>
  \<open>toISOString().split('T')[0]\<close>: the UTC calendar day of a time value, written
  \<open>YYYY-MM-DD\<close>. Years outside 0 to 9999, which \<open>toISOString\<close> writes with a sign and six
  digits, do not arise for dates of the last ten years and are written with four digits
  or more here.
\<close>

function show_nat :: "nat \<Rightarrow> string" where
  "show_nat n =
     (if n < 10 then [char_of (48 + n)]
      else show_nat (n div 10) @ [char_of (48 + n mod 10)])"
  by pat_completeness auto
termination
  by (relation "measure (\<lambda>n. n)") auto

declare show_nat.simps [simp del]

definition pad :: "nat \<Rightarrow> int \<Rightarrow> string" where
  "pad w n = (let s = show_nat (nat n) in replicate (w - length s) CHR ''0'' @ s)"

definition iso_date :: "int \<Rightarrow> string" where
  "iso_date t =
     (let day = t div msPerDay
      in pad 4 (YearFromDay day) @ ''-'' @ pad 2 (MonthFromDay day + 1) @ ''-''
           @ pad 2 (DateFromDay day))"

text \<open>\<open>parseFloat(x.toFixed(2))\<close>: the nearest multiple of 1/100, the larger one at a tie.\<close>

definition toFixed2 :: "rat \<Rightarrow> rat" where
  "toFixed2 x =
     (if x < 0 then - (of_int \<lfloor>(- x) * 100 + 1 / 2\<rfloor> / 100)
      else of_int \<lfloor>x * 100 + 1 / 2\<rfloor> / 100)"

text \<open>\<open>new Date(x)\<close> for a number: the fraction is dropped, towards zero.\<close>

definition Date_number :: "rat \<Rightarrow> int option" where
  "Date_number x = TimeClip (if x < 0 then \<lceil>x\<rceil> else \<lfloor>x\<rfloor>)"

text \<open>
  The results of \<open>Math.random()\<close> in one round of the loop, in the order of the calls;
  each number is at least 0 and less than 1. \<open>r_id\<close> is the text that
  \<open>Math.random().toString(36).substring(2, 9)\<close> gives.
\<close>

record draw =
  r_time :: rat
  r_symbol :: rat
  r_price :: rat
  r_quantity :: rat
  r_sold :: rat
  r_variance :: rat
  r_id :: string

definition symbols :: "string list" where
  "symbols = [''TSLA'', ''AAPL'', ''NVDA'', ''MSFT'', ''AMZN'']"

definition tenYearsInMillis :: rat where
  "tenYearsInMillis = 10 * 365 * 24 * 60 * 60 * 1000"

text \<open>
  One round of the loop: the trade it pushes. \<open>now\<close> is \<open>now.getTime()\<close>. The result is
  \<open>None\<close> when \<open>tradeDate\<close> is an Invalid Date, for which \<open>toISOString\<close> throws; that
  needs a \<open>now\<close> at the very end of the range of dates.
\<close>

definition seed_trade :: "int \<Rightarrow> nat \<Rightarrow> draw \<Rightarrow> trade option" where
  "seed_trade now i r =
     (let timeOffset = r_time r * tenYearsInMillis;
          tradeDate = Date_number (of_int now - timeOffset);
          sym = symbols ! nat \<lfloor>r_symbol r * 5\<rfloor>;
          \<comment> \<open>five \<open>if\<close>s in a row, each overwriting \<open>basePrice = 100\<close>\<close>
          basePrice =
            (if sym = ''AMZN'' then 130 else if sym = ''MSFT'' then 300
             else if sym = ''NVDA'' then 400 else if sym = ''AAPL'' then 150
             else if sym = ''TSLA'' then 200 else 100);
          buy = basePrice * (1 / 2 + r_price r);
          qty = of_int \<lfloor>r_quantity r * 50\<rfloor> + 1;
          isSold = (r_sold r > 1 / 5);
          sell = (if isSold then Some (buy * (1 + (r_variance r * (1 / 2) - 1 / 5))) else None)
      in case tradeDate of
           None \<Rightarrow> None
         | Some t \<Rightarrow>
             Some \<lparr>symbol = sym, buyPrice = toFixed2 buy,
                   sellPrice =
                     (case sell of
                        None \<Rightarrow> None
                      | Some sp \<Rightarrow> if sp \<noteq> 0 then Some (toFixed2 sp) else None),
                   quantity = qty, date = iso_date t,
                   remarks = Some ''Automated 10-Year Test Data'',
                   trade_id = ''test-'' @ show_nat i @ ''-'' @ r_id r, timestamp = t\<rparr>)"

text \<open>The whole data set: a thousand rounds, then the sort by descending timestamp;
  \<open>None\<close> when a round throws.\<close>

definition generateLargeDataset :: "int \<Rightarrow> (nat \<Rightarrow> draw) \<Rightarrow> trade list option" where
  "generateLargeDataset now draws =
     map_option (sort_key (\<lambda>t. - timestamp t))
       (those (map (\<lambda>i. seed_trade now i (draws i)) [0..<1000]))"

text \<open>The initial state of \<open>trades\<close>: what was saved, or the seed data when fewer than
  fifty trades were saved.\<close>

definition initial_trades :: "trade list \<Rightarrow> int \<Rightarrow> (nat \<Rightarrow> draw) \<Rightarrow> trade list option" where
  "initial_trades parsed now draws =
     (if length parsed < 50 then generateLargeDataset now draws else Some parsed)"

text \<open>
  A round of the loop run at 2024-02-05T18:00:00Z whose first draw puts the trade six
  hours earlier, at 2024-02-05T12:00:00Z.
\<close>

definition seed_now :: int where
  "seed_now = 1707156000000"

definition seed_draw :: draw where
  "seed_draw =
     \<lparr>r_time = 21600000 / 315360000000, r_symbol = 1 / 4, r_price = 1 / 2,
      r_quantity = 1 / 10, r_sold = 1 / 2, r_variance = 3 / 5, r_id = ''k3x9q2a''\<rparr>"

definition seeded_feb5 :: trade where
  "seeded_feb5 =
     \<lparr>symbol = ''AAPL'', buyPrice = 150, sellPrice = Some 165, quantity = 6,
      date = ''2024-02-05'', remarks = Some ''Automated 10-Year Test Data'',
      trade_id = ''test-0-k3x9q2a'', timestamp = 1707134400000\<rparr>"

section \<open>The timestamp of a trade\<close>

text \<open>
  \<open>timestamp_at_local_midnight\<close>: the timestamp is the start of the trade's date in local
  time. \<open>timestamp_from_date\<close>: the timestamp is \<open>new Date(date).getTime()\<close>.
\<close>

definition timestamp_at_local_midnight :: "clock \<Rightarrow> trade \<Rightarrow> bool" where
  "timestamp_at_local_midnight clk t = (localMidnight clk (date t) = Some (timestamp t))"

definition timestamp_from_date :: "trade \<Rightarrow> bool" where
  "timestamp_from_date t = (Date_parse (date t) = Some (timestamp t))"

section \<open>Objects used as dictionaries\<close>

text \<open>
  A \<open>Record<string, V>\<close> that starts as \<open>{}\<close> is an association list of its own
  properties in the order of their creation: \<open>AList.update\<close> overwrites the value of a
  key that is present and appends a key that is new. \<open>Object.keys\<close> lists the keys that
  are array indices (canonical decimal numbers below \<open>2^32 - 1\<close>) first, in ascending
  numeric order, and then the other keys in the order of their creation.
  \<open>Object.values\<close> lists the values in the same order. Keys that name a member of
  \<open>Object.prototype\<close> (\<open>constructor\<close>, \<open>toString\<close>, \<open>__proto__\<close> and the like), which a
  read of \<open>obj[key]\<close> would find although the key was never stored, are outside the
  model; an ISO date and an upper-case ticker are never such a name.
\<close>

definition is_array_index :: "string \<Rightarrow> bool" where
  "is_array_index k =
     (case digits k of
        None \<Rightarrow> False
      | Some n \<Rightarrow> (k = ''0'' \<or> hd k \<noteq> CHR ''0'') \<and> n < 4294967295)"

definition array_index :: "string \<Rightarrow> int" where
  "array_index k = (case digits k of None \<Rightarrow> 0 | Some n \<Rightarrow> n)"

definition Object_keys :: "(string \<times> 'v) list \<Rightarrow> string list" where
  "Object_keys obj =
     (let ks = map fst obj
      in sort_key array_index (filter is_array_index ks)
           @ filter (\<lambda>k. \<not> is_array_index k) ks)"

definition Object_values :: "(string \<times> 'v) list \<Rightarrow> 'v list" where
  "Object_values obj = List.map_filter (map_of obj) (Object_keys obj)"

text \<open>\<open>!x\<close> for \<open>x\<close> a number or \<open>undefined\<close>.\<close>

fun falsy :: "rat option \<Rightarrow> bool" where
  "falsy None = True"
| "falsy (Some v) = (v = 0)"

text \<open>\<open>obj[k]\<close> in arithmetic: a missing property is \<open>undefined\<close>, which converts to \<open>NaN\<close>.\<close>

definition number_prop :: "(string \<times> rat) list \<Rightarrow> string \<Rightarrow> jsnum" where
  "number_prop obj k = (case map_of obj k of None \<Rightarrow> NaN | Some v \<Rightarrow> Num v)"

text \<open>\<open>a + b\<close> on computed numbers, the finite result rounded.\<close>

fun js_plus :: "(rat \<Rightarrow> rat) \<Rightarrow> jsnum \<Rightarrow> jsnum \<Rightarrow> jsnum" where
  "js_plus rnd (Num a) (Num b) = Num (rnd (a + b))"
| "js_plus rnd NaN _ = NaN"
| "js_plus rnd _ NaN = NaN"
| "js_plus rnd PosInfinity NegInfinity = NaN"
| "js_plus rnd NegInfinity PosInfinity = NaN"
| "js_plus rnd PosInfinity _ = PosInfinity"
| "js_plus rnd _ PosInfinity = PosInfinity"
| "js_plus rnd NegInfinity _ = NegInfinity"
| "js_plus rnd _ NegInfinity = NegInfinity"

section \<open>Chart data (TradeCharts, \<open>chartData\<close>)\<close>

text \<open>The property \<open>trades\<close> of both components is written \<open>tradeList\<close>. Every function
  takes the rounding \<open>rnd\<close> of the arithmetic as its first argument.\<close>

record chartPoint =
  cp_date :: string
  dailyProfit :: jsnum
  cumulative :: jsnum

text \<open>
  One round of \<open>trades.forEach\<close>. For a closed trade the two statements
  \<open>if (!dailyProfits[d]) dailyProfits[d] = 0\<close> and \<open>dailyProfits[d] += profit\<close> leave under
  \<open>d\<close> the old value, or 0 when there was none (or when it was 0), plus the profit; the
  key keeps its place, or is appended when it is new.
\<close>

definition dailyProfits_step ::
    "(rat \<Rightarrow> rat) \<Rightarrow> trade \<Rightarrow> (string \<times> rat) list \<Rightarrow> (string \<times> rat) list" where
  "dailyProfits_step rnd trade dailyProfits =
     (if sellPrice trade \<noteq> None then
        (let p = rnd (rnd (to_number (sellPrice trade) - buyPrice trade) * quantity trade);
             old = map_of dailyProfits (date trade);
             v = (if falsy old then 0 else to_number old)
         in AList.update (date trade) (rnd (v + p)) dailyProfits)
      else dailyProfits)"

text \<open>\<open>sortedDates.map(...)\<close> with the variable \<open>runningTotal\<close>.\<close>

fun cumulate ::
    "(rat \<Rightarrow> rat) \<Rightarrow> (string \<times> rat) list \<Rightarrow> jsnum \<Rightarrow> string list \<Rightarrow> chartPoint list" where
  "cumulate rnd dailyProfits runningTotal [] = []"
| "cumulate rnd dailyProfits runningTotal (d # ds) =
     (let runningTotal' = js_plus rnd runningTotal (number_prop dailyProfits d)
      in \<lparr>cp_date = d, dailyProfit = number_prop dailyProfits d, cumulative = runningTotal'\<rparr>
           # cumulate rnd dailyProfits runningTotal' ds)"

text \<open>\<open>sort()\<close> without a comparator orders strings by their code units.\<close>

definition chartData :: "(rat \<Rightarrow> rat) \<Rightarrow> trade list \<Rightarrow> chartPoint list" where
  "chartData rnd tradeList =
     (let dailyProfits = fold (dailyProfits_step rnd) tradeList [];
          sortedDates = sort (Object_keys dailyProfits)
      in cumulate rnd dailyProfits (Num 0) sortedDates)"

section \<open>Portfolio allocation (PortfolioOverview, \<open>portfolioData\<close>)\<close>

record holding =
  totalShares :: rat
  investedAmount :: rat
  holding_avgBuyPrice :: rat

record allocation =
  alloc_symbol :: string
  shares :: rat
  amount :: rat
  avgBuy :: jsnum
  percentage :: jsnum

text \<open>
  One round of \<open>trades.forEach\<close>: after \<open>if (!summary[s]) summary[s] = {0, 0, 0}\<close> the
  entry under \<open>s\<close> is the old one, or the zero entry when there was none, and the two
  \<open>+=\<close> update it in place.
\<close>

definition summary_step :: "trade \<Rightarrow> (string \<times> holding) list \<Rightarrow> (string \<times> holding) list" where
  "summary_step trade summary =
     (let h = (case map_of summary (symbol trade) of
                 None \<Rightarrow> \<lparr>totalShares = 0, investedAmount = 0, holding_avgBuyPrice = 0\<rparr>
               | Some h \<Rightarrow> h)
      in AList.update (symbol trade)
           (h\<lparr>totalShares := totalShares h + quantity trade,
              investedAmount := investedAmount h + buyPrice trade * quantity trade\<rparr>)
           summary)"

text \<open>
  The result is \<open>None\<close> if \<open>summary[symbol]\<close> were \<open>undefined\<close> for a listed key, where
  reading \<open>data.totalShares\<close> throws. The sort with the comparator
  \<open>b.amount - a.amount\<close> is stable.
\<close>

definition portfolioData :: "trade list \<Rightarrow> allocation list option" where
  "portfolioData tradeList =
     (let summary = fold summary_step tradeList [];
          totalInvested = foldl (\<lambda>acc curr. acc + investedAmount curr) 0 (Object_values summary);
          rows =
            those
              (map (\<lambda>symbol.
                      map_option
                        (\<lambda>data.
                           \<lparr>alloc_symbol = symbol, shares = totalShares data,
                            amount = investedAmount data,
                            avgBuy = js_divide (investedAmount data) (totalShares data),
                            percentage =
                              (if totalInvested > 0
                               then js_times (js_divide (investedAmount data) totalInvested) 100
                               else Num 0)\<rparr>)
                        (map_of summary symbol))
                 (Object_keys summary))
      in map_option (sort_key (\<lambda>r. - amount r)) rows)"

text \<open>The numbers behind the percentages of a result, when all of them are finite.\<close>

fun finite_values :: "jsnum list \<Rightarrow> rat list option" where
  "finite_values [] = Some []"
| "finite_values (Num x # xs) = map_option ((#) x) (finite_values xs)"
| "finite_values (_ # xs) = None"

section \<open>Notions used in the statements\<close>

text \<open>The value stored under a key, 0 for a key that is absent.\<close>

definition stored :: "(string \<times> rat) list \<Rightarrow> string \<Rightarrow> rat" where
  "stored obj k = (case map_of obj k of None \<Rightarrow> 0 | Some v \<Rightarrow> v)"

text \<open>The capital that a trade deploys, \<open>buyPrice * quantity\<close>.\<close>

definition invested :: "trade \<Rightarrow> rat" where
  "invested t = buyPrice t * quantity t"

text \<open>The amount and the shares held under a symbol, 0 for a symbol that is absent.\<close>

definition heldAmount :: "(string \<times> holding) list \<Rightarrow> string \<Rightarrow> rat" where
  "heldAmount summary k = (case map_of summary k of None \<Rightarrow> 0 | Some h \<Rightarrow> investedAmount h)"

definition heldShares :: "(string \<times> holding) list \<Rightarrow> string \<Rightarrow> rat" where
  "heldShares summary k = (case map_of summary k of None \<Rightarrow> 0 | Some h \<Rightarrow> totalShares h)"

text \<open>
  The upper bound that the specification gives for an end date: 23:59:59.999 of that
  calendar day in local time.
\<close>

definition end_of_calendar_day :: "clock \<Rightarrow> string \<Rightarrow> int option" where
  "end_of_calendar_day clk s =
     (case parse_ymd s of
        None \<Rightarrow> None
      | Some (y, m, d) \<Rightarrow>
          TimeClip (UTC clk (MakeDay (fullYear y) (m - 1) d * msPerDay + (msPerDay - 1))))"

text \<open>
  A clock as the statements about the current day assume it: the local date is a date
  of the years 100 to 9999, and an offset of local time from UTC is at most a day, as
  is the difference of two offsets.
\<close>

definition wf_clock :: "clock \<Rightarrow> bool" where
  "wf_clock clk \<longleftrightarrow>
     100 \<le> now_fullYear clk \<and> now_fullYear clk \<le> 9999
     \<and> 0 \<le> now_month clk \<and> now_month clk \<le> 11
     \<and> 1 \<le> now_date clk \<and> now_date clk \<le> 31
     \<and> (\<forall>x. \<bar>utc_offset clk x\<bar> \<le> msPerDay)
     \<and> (\<forall>x. \<bar>local_offset clk x\<bar> \<le> msPerDay)
     \<and> (\<forall>x y. local_offset clk x - local_offset clk y \<le> msPerDay)"

text \<open>The sum of a list as a loop of \<open>+=\<close> computes it, from the left.\<close>

definition sum_r :: "(rat \<Rightarrow> rat) \<Rightarrow> rat list \<Rightarrow> rat" where
  "sum_r rnd xs = foldl (\<lambda>s x. rnd (s + x)) 0 xs"

section \<open>Trade history (TradeHistory) and its two uses in App\<close>

text \<open>
  Arrays are mutable and passed by reference: a heap maps references to arrays, and
  \<open>next_ref\<close> is the first reference not in use. \<open>alloc\<close> stores a new array, as
  \<open>slice\<close> and \<open>filter\<close> do for their result.
\<close>

record heap =
  arrays :: "nat \<Rightarrow> trade list option"
  next_ref :: nat

definition alloc :: "trade list \<Rightarrow> heap \<Rightarrow> nat \<times> heap" where
  "alloc xs h = (next_ref h, h\<lparr>arrays := (arrays h)(next_ref h \<mapsto> xs), next_ref := Suc (next_ref h)\<rparr>)"

text \<open>
  \<open>TradeHistory\<close> receives the reference of \<open>trades\<close>. It returns early for an empty
  array; otherwise \<open>trades.sort((a, b) => b.timestamp - a.timestamp)\<close> sorts the array in
  place (the sort is stable) and the rows are rendered from it. The result is the list
  of trades in the order of the rows, and the heap afterwards.
\<close>

definition TradeHistory :: "nat \<Rightarrow> heap \<Rightarrow> trade list \<times> heap" where
  "TradeHistory r h =
     (case arrays h r of
        None \<Rightarrow> ([], h)
      | Some ts \<Rightarrow>
          if length ts = 0 then ([], h)
          else (let sorted_ts = sort_key (\<lambda>t. - timestamp t) ts
                in (sorted_ts, h\<lparr>arrays := (arrays h)(r \<mapsto> sorted_ts)\<rparr>)))"

text \<open>
  App renders \<open>TradeHistory\<close> twice, with \<open>f\<close> the reference of \<open>filteredTrades\<close>: on the
  dashboard with \<open>filteredTrades.slice(0, 5)\<close>, a new array, and on the Trade Log tab
  with \<open>filteredTrades\<close> itself.
\<close>

definition render_dashboard_history :: "nat \<Rightarrow> heap \<Rightarrow> trade list \<times> heap" where
  "render_dashboard_history f h =
     (case arrays h f of
        None \<Rightarrow> ([], h)
      | Some ts \<Rightarrow> (let (r, h1) = alloc (take 5 ts) h in TradeHistory r h1))"

definition render_log_history :: "nat \<Rightarrow> heap \<Rightarrow> trade list \<times> heap" where
  "render_log_history f h = TradeHistory f h"

text \<open>A heap whose only array, at reference 0, is the given list.\<close>

definition heap_of :: "trade list \<Rightarrow> heap" where
  "heap_of ts = \<lparr>arrays = (\<lambda>r. None)(0 \<mapsto> ts), next_ref = 1\<rparr>"

section \<open>Lists of optional values\<close>

lemma those_map_Some:
  "(\<And>x. x \<in> set xs \<Longrightarrow> f x = Some (g x)) \<Longrightarrow> those (map f xs) = Some (map g xs)"
  by (induction xs) simp_all

lemma map_filter_map_Some:
  "(\<And>x. x \<in> set xs \<Longrightarrow> f x = Some (g x)) \<Longrightarrow> List.map_filter f xs = map g xs"
  by (induction xs) (simp_all add: List.map_filter_simps)

section \<open>The scan over the closed trades\<close>

lemma scan_totalProfit:
  "s_totalProfit (fold scan_step cs s) = s_totalProfit s + sum_list (map profit cs)"
  by (induction cs arbitrary: s) (simp_all add: scan_step_def profit_def Let_def)

lemma scan_totalSellPrice:
  "s_totalSellPrice (fold scan_step cs s)
     = s_totalSellPrice s + sum_list (map (\<lambda>t. to_number (sellPrice t)) cs)"
  by (induction cs arbitrary: s) (simp_all add: scan_step_def Let_def)

lemma scan_wins:
  "s_wins (fold scan_step cs s) = s_wins s + length (filter (\<lambda>t. 0 < profit t) cs)"
  by (induction cs arbitrary: s) (simp_all add: scan_step_def profit_def Let_def)

lemma scan_best_Num:
  "s_best s = Num b \<Longrightarrow> s_best (fold scan_step cs s) = Num (fold max (map profit cs) b)"
proof (induction cs arbitrary: s b)
  case Nil
  then show ?case by simp
next
  case (Cons c cs)
  have "s_best (scan_step c s) = Num (max (profit c) b)"
    using Cons.prems by (simp add: scan_step_def profit_def Let_def max_def)
  from Cons.IH [OF this] show ?case by simp
qed

lemma scan_worst_Num:
  "s_worst s = Num b \<Longrightarrow> s_worst (fold scan_step cs s) = Num (fold min (map profit cs) b)"
proof (induction cs arbitrary: s b)
  case Nil
  then show ?case by simp
next
  case (Cons c cs)
  have "s_worst (scan_step c s) = Num (min (profit c) b)"
    using Cons.prems by (simp add: scan_step_def profit_def Let_def min_def js_lt_def)
  from Cons.IH [OF this] show ?case by simp
qed

lemma scan_best:
  "cs \<noteq> [] \<Longrightarrow> s_best (fold scan_step cs scan_init) = Num (Max (set (map profit cs)))"
proof (cases cs)
  case Nil
  assume "cs \<noteq> []"
  with Nil show ?thesis by simp
next
  case (Cons c cs')
  have "s_best (scan_step c scan_init) = Num (profit c)"
    by (simp add: scan_step_def scan_init_def profit_def Let_def)
  from scan_best_Num [OF this, of cs']
  have "s_best (fold scan_step cs scan_init) = Num (fold max (map profit cs') (profit c))"
    by (simp add: Cons)
  also have "fold max (map profit cs') (profit c) = Max (set (map profit cs))"
    using Max.set_eq_fold [of "profit c" "map profit cs'"] by (simp add: Cons)
  finally show ?thesis .
qed

lemma scan_worst:
  "cs \<noteq> [] \<Longrightarrow> s_worst (fold scan_step cs scan_init) = Num (Min (set (map profit cs)))"
proof (cases cs)
  case Nil
  assume "cs \<noteq> []"
  with Nil show ?thesis by simp
next
  case (Cons c cs')
  have "s_worst (scan_step c scan_init) = Num (profit c)"
    by (simp add: scan_step_def scan_init_def profit_def Let_def js_lt_def)
  from scan_worst_Num [OF this, of cs']
  have "s_worst (fold scan_step cs scan_init) = Num (fold min (map profit cs') (profit c))"
    by (simp add: Cons)
  also have "fold min (map profit cs') (profit c) = Min (set (map profit cs))"
    using Min.set_eq_fold [of "profit c" "map profit cs'"] by (simp add: Cons)
  finally show ?thesis .
qed

lemma closedTrades_Nil_imp: "closedTrades ts \<noteq> [] \<Longrightarrow> ts \<noteq> []"
  by (auto simp: closedTrades_def)

lemma stats_totalProfit:
  "totalProfit (stats ts) = Num (sum_list (map profit (closedTrades ts)))"
  by (cases "ts = []")
     (simp_all add: stats_def Let_def scan_totalProfit scan_init_def closedTrades_def)

lemma stats_bestTrade:
  "closedTrades ts \<noteq> [] \<Longrightarrow>
   bestTrade (stats ts) = Num (Max (set (map profit (closedTrades ts))))"
  using closedTrades_Nil_imp [of ts]
  by (simp add: stats_def Let_def scan_best js_strict_eq_def del: set_map)

lemma stats_worstTrade:
  "closedTrades ts \<noteq> [] \<Longrightarrow>
   worstTrade (stats ts) = Num (Min (set (map profit (closedTrades ts))))"
  using closedTrades_Nil_imp [of ts]
  by (simp add: stats_def Let_def scan_worst js_strict_eq_def del: set_map)

lemma stats_winRate:
  "closedTrades ts \<noteq> [] \<Longrightarrow>
   winRate (stats ts)
     = Num (100 * of_nat (length (filter (\<lambda>t. 0 < profit t) (closedTrades ts)))
              / of_nat (length (closedTrades ts)))"
  using closedTrades_Nil_imp [of ts]
  by (simp add: stats_def Let_def scan_wins scan_init_def js_divide_def)

lemma stats_winRate_none:
  "closedTrades ts = [] \<Longrightarrow> winRate (stats ts) = Num 0"
  by (simp add: stats_def Let_def)

lemma stats_no_closed:
  assumes "closedTrades ts = []"
  shows "totalProfit (stats ts) = Num 0" and "avgSellPrice (stats ts) = Num 0"
    and "avgProfitPerTrade (stats ts) = Num 0" and "winRate (stats ts) = Num 0"
    and "bestTrade (stats ts) = Num 0" and "worstTrade (stats ts) = Num 0"
  using assms by (simp_all add: stats_def Let_def scan_init_def js_strict_eq_def)

lemma stats_finite:
  "is_finite (totalProfit (stats ts))" "is_finite (avgBuyPrice (stats ts))"
  "is_finite (avgSellPrice (stats ts))" "is_finite (avgProfitPerTrade (stats ts))"
  "is_finite (winRate (stats ts))" "is_finite (bestTrade (stats ts))"
  "is_finite (worstTrade (stats ts))"
proof -
  show "is_finite (totalProfit (stats ts))"
    by (simp add: stats_totalProfit)
  show "is_finite (avgBuyPrice (stats ts))"
    by (simp add: stats_def Let_def js_divide_def)
  show "is_finite (avgSellPrice (stats ts))"
    by (simp add: stats_def Let_def js_divide_def)
  show "is_finite (avgProfitPerTrade (stats ts))"
    by (simp add: stats_def Let_def js_divide_def)
  show "is_finite (winRate (stats ts))"
    by (simp add: stats_def Let_def js_divide_def)
  show "is_finite (bestTrade (stats ts))"
    by (cases "closedTrades ts = []") (simp_all add: stats_no_closed stats_bestTrade del: set_map)
  show "is_finite (worstTrade (stats ts))"
    by (cases "closedTrades ts = []") (simp_all add: stats_no_closed stats_worstTrade del: set_map)
qed

lemma stats_scenario1:
  "totalProfit (stats scenario1) = Num 450" "winRate (stats scenario1) = Num 50"
  "bestTrade (stats scenario1) = Num 500" "worstTrade (stats scenario1) = Num (- 50)"
  by (simp_all add: stats_def scenario1_def closedTrades_def scan_step_def scan_init_def
        js_divide_def js_strict_eq_def js_lt_def Let_def)

lemma stats_scenario2:
  "openPositions (stats scenario2) = 1" "totalTrades (stats scenario2) = 1"
  "closedTrades scenario2 = []"
  by (simp_all add: stats_def scenario2_def closedTrades_def Let_def)

section \<open>Claims about the statistics\<close>

text \<open>
  C1. For every trade list, the profit of a closed trade is
  \<open>(sellPrice - buyPrice) * quantity\<close>; \<open>totalProfit\<close> is the sum of these profits over
  the closed trades; when there is a closed trade, \<open>bestTrade\<close> and \<open>worstTrade\<close> are the
  maximum and the minimum of these profits, and \<open>winRate\<close> is 100 times the number of
  closed trades with a strictly positive profit, divided by the number of closed trades.
  On the two trades of Scenario 1 the result has \<open>totalProfit = 450\<close>, \<open>winRate = 50\<close>,
  \<open>bestTrade = 500\<close> and \<open>worstTrade = -50\<close>.
\<close>

theorem stats_profit_aggregates:
  "(\<forall>t \<in> set (closedTrades ts).
      \<exists>sp. sellPrice t = Some sp \<and> profit t = (sp - buyPrice t) * quantity t)
   \<and> totalProfit (stats ts) = Num (sum_list (map profit (closedTrades ts)))
   \<and> (closedTrades ts \<noteq> [] \<longrightarrow>
        bestTrade (stats ts) = Num (Max (set (map profit (closedTrades ts))))
      \<and> worstTrade (stats ts) = Num (Min (set (map profit (closedTrades ts))))
      \<and> winRate (stats ts)
          = Num (100 * of_nat (length (filter (\<lambda>t. 0 < profit t) (closedTrades ts)))
                   / of_nat (length (closedTrades ts))))
   \<and> totalProfit (stats scenario1) = Num 450
   \<and> winRate (stats scenario1) = Num 50
   \<and> bestTrade (stats scenario1) = Num 500
   \<and> worstTrade (stats scenario1) = Num (- 50)"
proof -
  have "\<forall>t \<in> set (closedTrades ts).
          \<exists>sp. sellPrice t = Some sp \<and> profit t = (sp - buyPrice t) * quantity t"
    by (auto simp: closedTrades_def profit_def)
  then show ?thesis
    using stats_totalProfit [of ts] stats_bestTrade [of ts] stats_worstTrade [of ts]
      stats_winRate [of ts] stats_scenario1
    by blast
qed

theorem stats_profit_aggregates_witness:
  "closedTrades scenario1 \<noteq> []
   \<and> sum_list (map profit (closedTrades scenario1)) = 450
   \<and> totalProfit (stats scenario1) = Num (sum_list (map profit (closedTrades scenario1)))
   \<and> bestTrade (stats scenario1) = Num (Max (set (map profit (closedTrades scenario1))))
   \<and> worstTrade (stats scenario1) = Num (Min (set (map profit (closedTrades scenario1))))
   \<and> winRate (stats scenario1)
       = Num (100 * of_nat (length (filter (\<lambda>t. 0 < profit t) (closedTrades scenario1)))
                / of_nat (length (closedTrades scenario1)))"
proof -
  have ne: "closedTrades scenario1 \<noteq> []"
    by (simp add: closedTrades_def scenario1_def)
  have "sum_list (map profit (closedTrades scenario1)) = 450"
    by (simp add: closedTrades_def scenario1_def profit_def)
  with ne stats_profit_aggregates [of scenario1] show ?thesis
    by blast
qed

text \<open>
  C2. The aggregator is total and every number it returns is finite. On the empty list
  every field is 0. On a list without a closed trade (Scenario 2 is one) \<open>totalProfit\<close>,
  \<open>avgSellPrice\<close>, \<open>avgProfitPerTrade\<close>, \<open>winRate\<close>, \<open>bestTrade\<close> and \<open>worstTrade\<close> are 0:
  the infinite sentinels of the scan are replaced by 0, and no division by zero is
  evaluated.
\<close>

theorem stats_never_fails:
  "stats [] = \<lparr>totalProfit = Num 0, avgBuyPrice = Num 0, avgSellPrice = Num 0,
               avgProfitPerTrade = Num 0, winRate = Num 0, totalTrades = 0,
               openPositions = 0, bestTrade = Num 0, worstTrade = Num 0\<rparr>
   \<and> (closedTrades ts = [] \<longrightarrow>
        totalProfit (stats ts) = Num 0 \<and> avgSellPrice (stats ts) = Num 0
      \<and> avgProfitPerTrade (stats ts) = Num 0 \<and> winRate (stats ts) = Num 0
      \<and> bestTrade (stats ts) = Num 0 \<and> worstTrade (stats ts) = Num 0)
   \<and> is_finite (totalProfit (stats ts)) \<and> is_finite (avgBuyPrice (stats ts))
   \<and> is_finite (avgSellPrice (stats ts)) \<and> is_finite (avgProfitPerTrade (stats ts))
   \<and> is_finite (winRate (stats ts)) \<and> is_finite (bestTrade (stats ts))
   \<and> is_finite (worstTrade (stats ts))
   \<and> openPositions (stats scenario2) = 1"
proof -
  have "stats [] = \<lparr>totalProfit = Num 0, avgBuyPrice = Num 0, avgSellPrice = Num 0,
               avgProfitPerTrade = Num 0, winRate = Num 0, totalTrades = 0,
               openPositions = 0, bestTrade = Num 0, worstTrade = Num 0\<rparr>"
    by (simp add: stats_def)
  then show ?thesis
    using stats_no_closed [of ts] stats_finite [of ts] stats_scenario2(1)
    by blast
qed

theorem stats_never_fails_witness:
  "closedTrades scenario2 = []
   \<and> totalProfit (stats scenario2) = Num 0 \<and> avgSellPrice (stats scenario2) = Num 0
   \<and> avgProfitPerTrade (stats scenario2) = Num 0 \<and> winRate (stats scenario2) = Num 0
   \<and> bestTrade (stats scenario2) = Num 0 \<and> worstTrade (stats scenario2) = Num 0
   \<and> openPositions (stats scenario2) = 1"
  using stats_never_fails [of scenario2] stats_scenario2(3) by blast

text \<open>
  C3, as stated: \<open>winRate\<close> is 0 exactly when the list has no closed trade. A list
  with one closed trade sold at a loss has a closed trade and \<open>winRate = 0\<close>.
\<close>

theorem winRate_zero_with_closed_trade:
  "\<not> (winRate (stats [losing_trade]) = Num 0 \<longleftrightarrow> closedTrades [losing_trade] = [])"
  by (simp add: stats_def losing_trade_def closedTrades_def scan_step_def scan_init_def
        js_divide_def Let_def)

text \<open>
  C3, amended: for every trade list \<open>winRate\<close> is a finite number between 0 and 100, and
  it is 0 exactly when no closed trade has a strictly positive profit (which includes the
  lists with no closed trade).
\<close>

theorem winRate_range:
  "\<exists>w. winRate (stats ts) = Num w \<and> 0 \<le> w \<and> w \<le> 100
      \<and> (w = 0 \<longleftrightarrow> filter (\<lambda>t. 0 < profit t) (closedTrades ts) = [])"
proof (cases "closedTrades ts = []")
  case True
  then show ?thesis by (simp add: stats_winRate_none)
next
  case False
  let ?k = "length (filter (\<lambda>t. 0 < profit t) (closedTrades ts))"
  let ?n = "length (closedTrades ts)"
  have n: "0 < ?n" using False by simp
  have k: "?k \<le> ?n" by simp
  have le: "(100 * of_nat ?k / of_nat ?n :: rat) \<le> 100"
    using n k by (simp add: divide_le_eq)
  have ge: "(0::rat) \<le> 100 * of_nat ?k / of_nat ?n"
    by simp
  have z: "(100 * of_nat ?k / of_nat ?n = (0::rat)) \<longleftrightarrow> ?k = 0"
    using n by simp
  show ?thesis
    using stats_winRate [OF False] le ge z by auto
qed

theorem winRate_range_witness:
  "winRate (stats scenario1) = Num 50 \<and> winRate (stats [losing_trade]) = Num 0
   \<and> filter (\<lambda>t. 0 < profit t) (closedTrades [losing_trade]) = []"
proof -
  have a: "winRate (stats scenario1) = Num 50"
    by (rule stats_scenario1(2))
  obtain w where w: "winRate (stats [losing_trade]) = Num w"
    "w = 0 \<longleftrightarrow> filter (\<lambda>t. 0 < profit t) (closedTrades [losing_trade]) = []"
    using winRate_range [of "[losing_trade]"] by blast
  have "filter (\<lambda>t. 0 < profit t) (closedTrades [losing_trade]) = []"
    by (simp add: closedTrades_def losing_trade_def profit_def)
  with a w show ?thesis by simp
qed

section \<open>Filtering and dates\<close>

lemma includes_str_sublist: "includes_str s sub \<longleftrightarrow> sublist sub s"
  by (induction s) (simp_all add: sublist_Cons_right)

lemma filteredTrades_symbol:
  "(if sf \<noteq> [] then filter (\<lambda>t. includes_str (symbol t) (toUpperCase sf)) ts else ts)
     = filter (\<lambda>t. sublist (toUpperCase sf) (symbol t)) ts"
  by (simp add: includes_str_sublist toUpperCase_def)

lemma filteredTrades_window:
  "tf \<noteq> ALL_tf \<Longrightarrow>
   filteredTrades clk ts sf tf cs ce
     = filter (\<lambda>t. sublist (toUpperCase sf) (symbol t)
                 \<and> time_ge (timestamp t) (fst (resolve_window clk tf cs ce))
                 \<and> time_le (timestamp t) (snd (resolve_window clk tf cs ce))) ts"
  unfolding filteredTrades_def Let_def filteredTrades_symbol
  by (simp add: case_prod_unfold conj_commute)

lemma filteredTrades_ALL:
  "filteredTrades clk ts sf ALL_tf cs ce = filter (\<lambda>t. sublist (toUpperCase sf) (symbol t)) ts"
  unfolding filteredTrades_def Let_def filteredTrades_symbol by simp

lemma filteredTrades_filter:
  "\<exists>P. \<forall>xs. filteredTrades clk xs sf tf cs ce = filter P xs"
proof (cases "tf = ALL_tf")
  case True
  then show ?thesis using filteredTrades_ALL by blast
next
  case False
  then show ?thesis using filteredTrades_window by blast
qed

lemma resolve_window_end:
  "tf \<noteq> CUSTOM \<Longrightarrow> snd (resolve_window clk tf cs ce) = Some maxTime"
  by (cases tf) (simp_all add: resolve_window_def Let_def TimeClip_def maxTime_def)

lemma resolve_window_CUSTOM:
  "resolve_window clk CUSTOM cs ce =
     (if cs = [] then Some 0 else Date_parse cs,
      if ce = [] then Some maxTime else setHours_23_59_59_999 clk (Date_parse ce))"
  by (simp add: resolve_window_def Let_def TimeClip_def maxTime_def)

lemma digit_range: "digit c = Some n \<Longrightarrow> 0 \<le> n \<and> n \<le> 9"
  by (auto simp: digit_def Let_def split: if_splits)

lemma digits_from_range:
  "digits_from acc cs = Some n \<Longrightarrow> 0 \<le> acc \<Longrightarrow>
   acc * 10 ^ length cs \<le> n \<and> n < (acc + 1) * 10 ^ length cs"
proof (induction cs arbitrary: acc)
  case Nil
  then show ?case by simp
next
  case (Cons c cs)
  from Cons.prems(1) obtain d where d: "digit c = Some d"
    and r: "digits_from (10 * acc + d) cs = Some n"
    by (auto split: option.splits)
  from digit_range [OF d] have d09: "0 \<le> d" "d \<le> 9" by simp_all
  with Cons.prems(2) have "0 \<le> 10 * acc + d" by simp
  from Cons.IH [OF r this]
  have lo: "(10 * acc + d) * 10 ^ length cs \<le> n"
    and hi: "n < (10 * acc + d + 1) * 10 ^ length cs" by simp_all
  define P :: int where "P = 10 ^ length cs"
  have p: "0 \<le> P" by (simp add: P_def)
  have 1: "10 * acc * P \<le> (10 * acc + d) * P"
    using d09(1) p by (intro mult_right_mono) simp_all
  have 2: "(10 * acc + d + 1) * P \<le> (10 * acc + 10) * P"
    using d09(2) p by (intro mult_right_mono) simp_all
  have 3: "acc * 10 ^ length (c # cs) = 10 * acc * P"
    "(acc + 1) * 10 ^ length (c # cs) = (10 * acc + 10) * P"
    by (simp_all add: P_def algebra_simps)
  show ?case
    unfolding 3 using 1 2 lo hi unfolding P_def [symmetric] by linarith
qed

lemma digits_range: "digits cs = Some n \<Longrightarrow> 0 \<le> n \<and> n < 10 ^ length cs"
  using digits_from_range [of 0 cs n] by (simp add: digits_def split: if_splits)

lemma daysBeforeMonth_range:
  assumes "0 \<le> m" "m \<le> 11"
  shows "0 \<le> daysBeforeMonth l m \<and> daysBeforeMonth l m \<le> 335"
proof -
  from assms have "m = 0 \<or> m = 1 \<or> m = 2 \<or> m = 3 \<or> m = 4 \<or> m = 5 \<or> m = 6
      \<or> m = 7 \<or> m = 8 \<or> m = 9 \<or> m = 10 \<or> m = 11"
    by presburger
  then show ?thesis by (auto simp: daysBeforeMonth_def)
qed

lemma parse_ymd_range:
  assumes "parse_ymd s = Some (y, m, d)"
  shows "0 \<le> y \<and> y \<le> 9999 \<and> 1 \<le> m \<and> m \<le> 12 \<and> 1 \<le> d \<and> d \<le> DaysInMonth y (m - 1)"
proof -
  from assms have len: "length s = 10" and dy: "digits (take 4 s) = Some y"
    and r: "1 \<le> m \<and> m \<le> 12 \<and> 1 \<le> d \<and> d \<le> DaysInMonth y (m - 1)"
    by (auto simp: parse_ymd_def split: if_splits option.splits)
  from digits_range [OF dy] len have "0 \<le> y \<and> y < 10000" by simp
  with r show ?thesis by simp
qed

lemma DaysInMonth_le: "DaysInMonth y m \<le> 31"
  by (simp add: DaysInMonth_def)

lemma MakeDay_range:
  assumes "0 \<le> y" "y \<le> 9999" "0 \<le> m" "m \<le> 11" "1 \<le> d" "d \<le> 31"
  shows "- 720000 \<le> MakeDay y m d \<and> MakeDay y m d \<le> 2934000"
proof -
  have ym: "y + m div 12 = y" "m mod 12 = m" using assms by simp_all
  have dfy: "- 720000 \<le> DayFromYear y \<and> DayFromYear y \<le> 2933000"
  proof -
    have a: "- 493 \<le> (y - 1969) div 4" "(y - 1969) div 4 \<le> 2008"
      using zdiv_mono1 [of "- 1969" "y - 1969" 4] zdiv_mono1 [of "y - 1969" 8030 4] assms(1,2)
      by simp_all
    have b: "- 20 \<le> (y - 1901) div 100" "(y - 1901) div 100 \<le> 81"
      using zdiv_mono1 [of "- 1901" "y - 1901" 100] zdiv_mono1 [of "y - 1901" 8098 100] assms(1,2)
      by simp_all
    have c: "- 5 \<le> (y - 1601) div 400" "(y - 1601) div 400 \<le> 21"
      using zdiv_mono1 [of "- 1601" "y - 1601" 400] zdiv_mono1 [of "y - 1601" 8398 400] assms(1,2)
      by simp_all
    have "- 719050 \<le> 365 * (y - 1970)" "365 * (y - 1970) \<le> 2930585"
      using assms(1,2) by simp_all
    with a b c show ?thesis unfolding DayFromYear_def by linarith
  qed
  show ?thesis
    using dfy daysBeforeMonth_range [OF assms(3,4), of "InLeapYear y"] assms(5,6)
    by (simp add: MakeDay_def Let_def ym)
qed

lemma Date_parse_range:
  assumes "Date_parse s = Some t"
  shows "\<bar>t\<bar> + msPerDay \<le> maxTime \<and> t mod msPerDay = 0"
proof -
  from assms obtain y m d where p: "parse_ymd s = Some (y, m, d)"
    and t: "t = MakeDay y (m - 1) d * msPerDay"
    by (auto simp: Date_parse_def TimeClip_def split: option.splits if_splits)
  from parse_ymd_range [OF p] DaysInMonth_le [of y "m - 1"]
  have "- 720000 \<le> MakeDay y (m - 1) d \<and> MakeDay y (m - 1) d \<le> 2934000"
    by (intro MakeDay_range) auto
  then have "\<bar>MakeDay y (m - 1) d\<bar> \<le> 2934000" by linarith
  moreover have "\<bar>MakeDay y (m - 1) d * 86400000\<bar> = \<bar>MakeDay y (m - 1) d\<bar> * 86400000"
    by (simp add: abs_mult)
  ultimately show ?thesis unfolding t msPerDay_def maxTime_def by simp
qed


lemma parse_feb:
  "Date_parse ''2024-02-01'' = Some 1706745600000"
  "Date_parse ''2024-02-05'' = Some 1707091200000"
  "Date_parse ''2024-02-06'' = Some 1707177600000"
  by (simp_all add: Date_parse_def parse_ymd_def digits_def digit_def DaysInMonth_def
        InLeapYear_def MakeDay_def DayFromYear_def daysBeforeMonth_def msPerDay_def
        TimeClip_def maxTime_def)

lemma scenario4_eq:
  "scenario4 =
     [\<lparr>symbol = ''AAPL'', buyPrice = 100, sellPrice = None, quantity = 1,
       date = ''2024-02-05'', remarks = None, trade_id = ''t5'', timestamp = 1707091200000\<rparr>,
      \<lparr>symbol = ''MSFT'', buyPrice = 300, sellPrice = None, quantity = 2,
       date = ''2024-02-06'', remarks = None, trade_id = ''t6'', timestamp = 1707177600000\<rparr>]"
  by (simp add: scenario4_def handleSaveTrade_def feb5_data_def feb6_data_def empty_state_def
        parse_feb)

lemma parse_more:
  "Date_parse ''2024-10-27'' = Some 1729987200000"
  "Date_parse ''2024-10-28'' = Some 1730073600000"
  "Date_parse ''1969-12-31'' = Some (- 86400000)"
  "Date_parse ''2024-01-02'' = Some 1704153600000"
  by (simp_all add: Date_parse_def parse_ymd_def digits_def digit_def DaysInMonth_def
        InLeapYear_def MakeDay_def DayFromYear_def daysBeforeMonth_def msPerDay_def
        TimeClip_def maxTime_def)

lemma saved_oct28:
  "saved_alone oct28_data =
     [\<lparr>symbol = ''AAPL'', buyPrice = 100, sellPrice = None, quantity = 1,
       date = ''2024-10-28'', remarks = None, trade_id = ''t1'', timestamp = 1730073600000\<rparr>]"
  by (simp add: saved_alone_def handleSaveTrade_def oct28_data_def empty_state_def parse_more)

lemma saved_dec31:
  "saved_alone dec31_data =
     [\<lparr>symbol = ''AAPL'', buyPrice = 100, sellPrice = None, quantity = 1,
       date = ''1969-12-31'', remarks = None, trade_id = ''t1'', timestamp = - 86400000\<rparr>]"
  by (simp add: saved_alone_def handleSaveTrade_def dec31_data_def empty_state_def parse_more)

lemma filteredTrades_all_frames:
  "filteredTrades clk ts sf tf cs ce
     = filter (\<lambda>t. sublist (toUpperCase sf) (symbol t)
                 \<and> (tf \<noteq> ALL_tf \<longrightarrow>
                      time_ge (timestamp t) (fst (resolve_window clk tf cs ce))
                      \<and> time_le (timestamp t) (snd (resolve_window clk tf cs ce)))) ts"
  by (cases "tf = ALL_tf") (simp_all add: filteredTrades_ALL filteredTrades_window)

section \<open>Calendar arithmetic\<close>

lemma div_step:
  fixes n k :: int
  assumes "0 < k"
  shows "(n + 1) div k = n div k + (if (n + 1) mod k = 0 then 1 else 0)"
proof -
  define q where "q = n div k"
  define r where "r = n mod k"
  have n: "n = k * q + r" by (simp add: q_def r_def)
  have r: "0 \<le> r" "r < k" using assms by (simp_all add: r_def)
  show ?thesis
  proof (cases "r + 1 = k")
    case True
    then have e: "n + 1 = k * (q + 1) + 0" using n by (simp add: algebra_simps)
    have "(n + 1) div k = q + 1" using assms by (intro int_div_pos_eq [OF e]) simp_all
    moreover have "(n + 1) mod k = 0" using assms by (intro int_mod_pos_eq [OF e]) simp_all
    ultimately show ?thesis by (simp add: q_def)
  next
    case False
    with r have r1: "0 \<le> r + 1" "r + 1 < k" by simp_all
    have e: "n + 1 = k * q + (r + 1)" using n by simp
    have "(n + 1) div k = q" by (rule int_div_pos_eq [OF e r1])
    moreover have "(n + 1) mod k = r + 1" by (rule int_mod_pos_eq [OF e r1])
    ultimately show ?thesis using r by (simp add: q_def)
  qed
qed

lemma mod_shift:
  fixes y :: int
  shows "(y - 1970 + 1) mod 4 = 0 \<longleftrightarrow> (y - 1) mod 4 = 0"
    and "(y - 1902 + 1) mod 100 = 0 \<longleftrightarrow> (y - 1) mod 100 = 0"
    and "(y - 1602 + 1) mod 400 = 0 \<longleftrightarrow> (y - 1) mod 400 = 0"
proof -
  have "y - 1970 + 1 = (y - 1) + 4 * (- 492)" by simp
  then show "(y - 1970 + 1) mod 4 = 0 \<longleftrightarrow> (y - 1) mod 4 = 0"
    by (simp only: mod_mult_self2)
  have "y - 1902 + 1 = (y - 1) + 100 * (- 19)" by simp
  then show "(y - 1902 + 1) mod 100 = 0 \<longleftrightarrow> (y - 1) mod 100 = 0"
    by (simp only: mod_mult_self2)
  have "y - 1602 + 1 = (y - 1) + 400 * (- 4)" by simp
  then show "(y - 1602 + 1) mod 400 = 0 \<longleftrightarrow> (y - 1) mod 400 = 0"
    by (simp only: mod_mult_self2)
qed

lemma mod_400_100: "(x::int) mod 400 = 0 \<Longrightarrow> x mod 100 = 0"
  using mod_mod_cancel [of 100 400 x] by simp

lemma mod_100_4: "(x::int) mod 100 = 0 \<Longrightarrow> x mod 4 = 0"
  using mod_mod_cancel [of 4 100 x] by simp

lemma DayFromYear_step:
  "DayFromYear y - DayFromYear (y - 1) = (if InLeapYear (y - 1) then 366 else 365)"
proof -
  have a: "(y - 1969) div 4 = (y - 1970) div 4 + (if (y - 1) mod 4 = 0 then 1 else 0)"
    using div_step [of 4 "y - 1970"] mod_shift(1) [of y] by simp
  have b: "(y - 1901) div 100 = (y - 1902) div 100 + (if (y - 1) mod 100 = 0 then 1 else 0)"
    using div_step [of 100 "y - 1902"] mod_shift(2) [of y] by simp
  have c: "(y - 1601) div 400 = (y - 1602) div 400 + (if (y - 1) mod 400 = 0 then 1 else 0)"
    using div_step [of 400 "y - 1602"] mod_shift(3) [of y] by simp
  define A where "A = (y - 1970) div 4"
  define B where "B = (y - 1902) div 100"
  define C where "C = (y - 1602) div 400"
  have 1: "DayFromYear y = 365 * (y - 1970) + (y - 1969) div 4 - (y - 1901) div 100
             + (y - 1601) div 400"
    by (simp add: DayFromYear_def)
  have 2: "DayFromYear (y - 1) = 365 * (y - 1970) - 365 + A - B + C"
    by (simp add: DayFromYear_def A_def B_def C_def)
  show ?thesis
  proof (cases "(y - 1) mod 4 = 0")
    case False
    then have "(y - 1) mod 100 \<noteq> 0 \<and> (y - 1) mod 400 \<noteq> 0"
      using mod_100_4 [of "y - 1"] mod_400_100 [of "y - 1"] by auto
    with False show ?thesis
      unfolding 1 2 a b c A_def [symmetric] B_def [symmetric] C_def [symmetric]
      by (simp add: InLeapYear_def)
  next
    case 4: True
    show ?thesis
    proof (cases "(y - 1) mod 100 = 0")
      case False
      then have "(y - 1) mod 400 \<noteq> 0" using mod_400_100 [of "y - 1"] by auto
      with 4 False show ?thesis
        unfolding 1 2 a b c A_def [symmetric] B_def [symmetric] C_def [symmetric]
        by (simp add: InLeapYear_def)
    next
      case True
      with 4 show ?thesis
        unfolding 1 2 a b c A_def [symmetric] B_def [symmetric] C_def [symmetric]
        by (simp add: InLeapYear_def)
    qed
  qed
qed

lemma leap_not_twice: "InLeapYear (y - 1) \<Longrightarrow> \<not> InLeapYear y"
proof -
  assume "InLeapYear (y - 1)"
  then have "(y - 1) mod 4 = 0" by (simp add: InLeapYear_def)
  then have "y mod 4 = 1"
    using mod_add_left_eq [of "y - 1" 4 1] by simp
  then show "\<not> InLeapYear y" by (simp add: InLeapYear_def)
qed

lemma find_in_set: "find P xs = Some m \<Longrightarrow> m \<in> set xs"
  by (induction xs) (auto split: if_splits)

lemma MonthFromDay_range: "0 \<le> MonthFromDay n \<and> MonthFromDay n \<le> 11"
proof (cases "find (\<lambda>m. daysBeforeMonth (InLeapYear (YearFromDay n)) m \<le> n - DayFromYear (YearFromDay n))
                [11, 10, 9, 8, 7, 6, 5, 4, 3, 2, 1, 0 :: int]")
  case None
  then show ?thesis by (simp add: MonthFromDay_def Let_def)
next
  case (Some m)
  from find_in_set [OF Some] have "0 \<le> m \<and> m \<le> 11" by auto
  with Some show ?thesis by (simp add: MonthFromDay_def Let_def)
qed

lemma MakeDay_fields:
  "MakeDay (YearFromDay n) (MonthFromDay n) (DateFromDay n + k) = n + k"
proof -
  from MonthFromDay_range [of n]
  have "MonthFromDay n div 12 = 0" "MonthFromDay n mod 12 = MonthFromDay n" by simp_all
  then show ?thesis by (simp add: MakeDay_def DateFromDay_def Let_def)
qed

lemma MakeDay_year_before:
  "\<exists>k \<in> {365, 366}. MakeDay (YearFromDay n - 1) (MonthFromDay n) (DateFromDay n) = n - k"
proof -
  define y where "y = YearFromDay n"
  define m where "m = MonthFromDay n"
  define base where "base = [0, 31, 59, 90, 120, 151, 181, 212, 243, 273, 304, 334 :: int] ! nat m"
  from MonthFromDay_range [of n]
  have mm: "m div 12 = 0" "m mod 12 = m" by (simp_all add: m_def)
  have dbm: "daysBeforeMonth l m = base + (if l \<and> 2 \<le> m then 1 else 0)" for l
    by (simp add: daysBeforeMonth_def base_def)
  have dfy: "DayFromYear y = DayFromYear (y - 1) + (if InLeapYear (y - 1) then 366 else 365)"
    using DayFromYear_step [of y] by simp
  have e: "MakeDay (y - 1) m (DateFromDay n)
      = n - ((if InLeapYear (y - 1) then 366 else 365)
             + (if InLeapYear y \<and> 2 \<le> m then 1 else 0)
             - (if InLeapYear (y - 1) \<and> 2 \<le> m then 1 else 0))"
    unfolding MakeDay_def DateFromDay_def Let_def y_def [symmetric] m_def [symmetric] mm dbm
    by (simp add: dfy)
  show ?thesis
    unfolding y_def [symmetric] m_def [symmetric] e
    using leap_not_twice [of y] by auto
qed

lemma setDate_shift:
  "setDate clk (Some t) (map_option (\<lambda>n. n - k) (getDate clk (Some t)))
     = TimeClip (UTC clk (LocalTime clk t - k * msPerDay))"
proof -
  define tl where "tl = LocalTime clk t"
  have m: "MakeDay (YearFromDay (tl div msPerDay)) (MonthFromDay (tl div msPerDay))
          (DateFromDay (tl div msPerDay) - k) = tl div msPerDay - k"
    using MakeDay_fields [of "tl div msPerDay" "- k"] by simp
  have "(tl div msPerDay - k) * msPerDay + tl mod msPerDay = tl - k * msPerDay"
    by (simp add: algebra_simps)
  then have "MakeDay (YearFromDay (tl div msPerDay)) (MonthFromDay (tl div msPerDay))
          (DateFromDay (tl div msPerDay) - k) * msPerDay + tl mod msPerDay
        = tl - k * msPerDay"
    unfolding m .
  then show ?thesis
    by (simp add: setDate_def getDate_def Let_def tl_def)
qed

lemma setFullYear_shift:
  "\<exists>k \<in> {365, 366}.
     setFullYear clk (Some t) (map_option (\<lambda>y. y - 1) (getFullYear clk (Some t)))
       = TimeClip (UTC clk (LocalTime clk t - k * msPerDay))"
proof -
  define tl where "tl = LocalTime clk t"
  from MakeDay_year_before [of "tl div msPerDay"] obtain k where k: "k \<in> {365, 366}"
    and m: "MakeDay (YearFromDay (tl div msPerDay) - 1) (MonthFromDay (tl div msPerDay))
              (DateFromDay (tl div msPerDay)) = tl div msPerDay - k"
    by blast
  have "(tl div msPerDay - k) * msPerDay + tl mod msPerDay = tl - k * msPerDay"
    by (simp add: algebra_simps)
  then have "setFullYear clk (Some t) (map_option (\<lambda>y. y - 1) (getFullYear clk (Some t)))
       = TimeClip (UTC clk (LocalTime clk t - k * msPerDay))"
    by (simp add: setFullYear_def getFullYear_def Let_def tl_def [symmetric] m)
  with k show ?thesis by blast
qed

section \<open>The current day and the windows that start from it\<close>

lemma TimeClip_near:
  "- 730000 * msPerDay \<le> x \<Longrightarrow> x \<le> 2940000 * msPerDay \<Longrightarrow> TimeClip x = Some x"
  by (simp add: TimeClip_def msPerDay_def maxTime_def)

lemma wf_today:
  assumes "wf_clock clk"
  defines "M \<equiv> MakeDay (now_fullYear clk) (now_month clk) (now_date clk)"
  shows "Date_ymd clk (now_fullYear clk) (now_month clk) (now_date clk)
           = Some (UTC clk (M * msPerDay))"
    and "- 720001 * msPerDay \<le> UTC clk (M * msPerDay)"
    and "UTC clk (M * msPerDay) \<le> 2934001 * msPerDay"
    and "UTC clk (M * msPerDay) \<le> (M + 1) * msPerDay"
proof -
  from assms(1) have y: "100 \<le> now_fullYear clk" "now_fullYear clk \<le> 9999"
    and m: "0 \<le> now_month clk" "now_month clk \<le> 11"
    and d: "1 \<le> now_date clk" "now_date clk \<le> 31"
    and lo: "\<And>x. \<bar>local_offset clk x\<bar> \<le> msPerDay"
    by (simp_all add: wf_clock_def)
  have "- 720000 \<le> M \<and> M \<le> 2934000"
    unfolding M_def using y m d by (intro MakeDay_range) simp_all
  then have "- 720000 * msPerDay \<le> M * msPerDay" "M * msPerDay \<le> 2934000 * msPerDay"
    by (simp_all add: msPerDay_def)
  with lo [of "M * msPerDay"]
  show b: "- 720001 * msPerDay \<le> UTC clk (M * msPerDay)"
    "UTC clk (M * msPerDay) \<le> 2934001 * msPerDay"
    "UTC clk (M * msPerDay) \<le> (M + 1) * msPerDay"
    unfolding UTC_def by (simp_all add: algebra_simps) 
  have fy: "fullYear (now_fullYear clk) = now_fullYear clk"
    using y by (simp add: fullYear_def)
  have "TimeClip (UTC clk (M * msPerDay)) = Some (UTC clk (M * msPerDay))"
    using b(1,2) by (intro TimeClip_near) (simp_all add: msPerDay_def)
  then show "Date_ymd clk (now_fullYear clk) (now_month clk) (now_date clk)
           = Some (UTC clk (M * msPerDay))"
    unfolding M_def by (simp add: Date_ymd_def makeLocal_def fy)
qed

lemma shift_back:
  assumes "wf_clock clk" "- 720001 * msPerDay \<le> t" "t \<le> 2934001 * msPerDay"
    "2 \<le> k" "k \<le> 366"
  shows "TimeClip (UTC clk (LocalTime clk t - k * msPerDay))
           = Some (UTC clk (LocalTime clk t - k * msPerDay))"
    and "UTC clk (LocalTime clk t - k * msPerDay) \<le> t"
proof -
  from assms(1) have lo: "\<And>x. \<bar>local_offset clk x\<bar> \<le> msPerDay"
    and uo: "\<And>x. \<bar>utc_offset clk x\<bar> \<le> msPerDay"
    by (simp_all add: wf_clock_def)
  define D where "D = msPerDay"
  have D: "0 < D" by (simp add: D_def msPerDay_def)
  define a where "a = utc_offset clk t"
  define b where "b = local_offset clk (t + a - k * D)"
  have ab: "\<bar>a\<bar> \<le> D" "\<bar>b\<bar> \<le> D" using lo uo by (simp_all add: a_def b_def D_def)
  have k: "2 * D \<le> k * D" "k * D \<le> 366 * D"
    using assms(4,5) D by simp_all
  have e: "UTC clk (LocalTime clk t - k * msPerDay) = t + a - k * D - b"
    by (simp add: UTC_def LocalTime_def a_def b_def D_def)
  show "UTC clk (LocalTime clk t - k * msPerDay) \<le> t"
    unfolding e using ab k by linarith
  have "- 730000 * msPerDay \<le> t + a - k * D - b" "t + a - k * D - b \<le> 2940000 * msPerDay"
    using ab k assms(2,3) unfolding D_def by linarith+
  then show "TimeClip (UTC clk (LocalTime clk t - k * msPerDay))
           = Some (UTC clk (LocalTime clk t - k * msPerDay))"
    unfolding e by (rule TimeClip_near)
qed

lemma wf_year_start:
  assumes "wf_clock clk"
  defines "M \<equiv> MakeDay (now_fullYear clk) (now_month clk) (now_date clk)"
  defines "M0 \<equiv> MakeDay (now_fullYear clk) 0 1"
  shows "Date_ymd clk (now_fullYear clk) 0 1 = Some (UTC clk (M0 * msPerDay))"
    and "UTC clk (M0 * msPerDay) \<le> UTC clk (M * msPerDay)"
proof -
  from assms(1) have y: "100 \<le> now_fullYear clk" "now_fullYear clk \<le> 9999"
    and m: "0 \<le> now_month clk" "now_month clk \<le> 11"
    and d: "1 \<le> now_date clk" "now_date clk \<le> 31"
    and lo: "\<And>x. \<bar>local_offset clk x\<bar> \<le> msPerDay"
    and ll: "\<And>x y. local_offset clk x - local_offset clk y \<le> msPerDay"
    by (simp_all add: wf_clock_def)
  have r: "- 720000 \<le> M0 \<and> M0 \<le> 2934000"
    unfolding M0_def using y by (intro MakeDay_range) simp_all
  then have "- 720000 * msPerDay \<le> M0 * msPerDay" "M0 * msPerDay \<le> 2934000 * msPerDay"
    by (simp_all add: msPerDay_def)
  with lo [of "M0 * msPerDay"]
  have b: "- 730000 * msPerDay \<le> UTC clk (M0 * msPerDay)"
    "UTC clk (M0 * msPerDay) \<le> 2940000 * msPerDay"
    unfolding UTC_def by (simp_all add: msPerDay_def)
  have fy: "fullYear (now_fullYear clk) = now_fullYear clk"
    using y by (simp add: fullYear_def)
  have "TimeClip (UTC clk (M0 * msPerDay)) = Some (UTC clk (M0 * msPerDay))"
    using b by (rule TimeClip_near)
  then show "Date_ymd clk (now_fullYear clk) 0 1 = Some (UTC clk (M0 * msPerDay))"
    unfolding M0_def by (simp add: Date_ymd_def makeLocal_def fy)
  have mm: "now_month clk div 12 = 0" "now_month clk mod 12 = now_month clk"
    using m by simp_all
  have "0 \<le> daysBeforeMonth (InLeapYear (now_fullYear clk)) (now_month clk)"
    using daysBeforeMonth_range [OF m] by simp
  then have le: "M0 \<le> M"
    using d(1) by (simp add: M_def M0_def MakeDay_def Let_def mm daysBeforeMonth_def)
  show "UTC clk (M0 * msPerDay) \<le> UTC clk (M * msPerDay)"
  proof (cases "M0 = M")
    case True
    then show ?thesis by simp
  next
    case False
    with le have "M0 + 1 \<le> M" by simp
    then have "(M0 + 1) * msPerDay \<le> M * msPerDay"
      by (simp add: msPerDay_def)
    then have "M0 * msPerDay + msPerDay \<le> M * msPerDay"
      by (simp add: algebra_simps)
    with ll [of "M * msPerDay" "M0 * msPerDay"] show ?thesis
      unfolding UTC_def by linarith
  qed
qed

lemma resolve_window_start:
  assumes wf: "wf_clock clk"
    and today: "Date_ymd clk (now_fullYear clk) (now_month clk) (now_date clk) = Some today"
  shows "resolve_window clk TODAY cs ce = (Some today, Some maxTime)"
    and "resolve_window clk WEEK cs ce
           = (Some (UTC clk (LocalTime clk today - 7 * msPerDay)), Some maxTime)"
    and "resolve_window clk MONTH cs ce
           = (Some (UTC clk (LocalTime clk today - 30 * msPerDay)), Some maxTime)"
    and "resolve_window clk YTD cs ce
           = (Date_ymd clk (now_fullYear clk) 0 1, Some maxTime)"
    and "\<exists>k \<in> {365, 366}. resolve_window clk YEAR cs ce
           = (Some (UTC clk (LocalTime clk today - k * msPerDay)), Some maxTime)"
proof -
  have e: "TimeClip 8640000000000000 = Some maxTime"
    by (simp add: TimeClip_def maxTime_def)
  from wf_today [OF wf] today
  have b: "- 720001 * msPerDay \<le> today" "today \<le> 2934001 * msPerDay" by simp_all
  show "resolve_window clk TODAY cs ce = (Some today, Some maxTime)"
    by (simp add: resolve_window_def Let_def today e)
  show "resolve_window clk WEEK cs ce
           = (Some (UTC clk (LocalTime clk today - 7 * msPerDay)), Some maxTime)"
    using shift_back(1) [OF wf b, of 7]
    by (simp add: resolve_window_def Let_def today e setDate_shift)
  show "resolve_window clk MONTH cs ce
           = (Some (UTC clk (LocalTime clk today - 30 * msPerDay)), Some maxTime)"
    using shift_back(1) [OF wf b, of 30]
    by (simp add: resolve_window_def Let_def today e setDate_shift)
  show "resolve_window clk YTD cs ce = (Date_ymd clk (now_fullYear clk) 0 1, Some maxTime)"
    by (simp add: resolve_window_def Let_def e)
  from setFullYear_shift [of clk today] obtain k where k: "k \<in> {365, 366}"
    and s: "setFullYear clk (Some today) (map_option (\<lambda>y. y - 1) (getFullYear clk (Some today)))
       = TimeClip (UTC clk (LocalTime clk today - k * msPerDay))"
    by blast
  from k have "2 \<le> k" "k \<le> 366" by auto
  from shift_back(1) [OF wf b this]
  have "resolve_window clk YEAR cs ce
           = (Some (UTC clk (LocalTime clk today - k * msPerDay)), Some maxTime)"
    by (simp add: resolve_window_def Let_def today e s)
  with k show "\<exists>k \<in> {365, 366}. resolve_window clk YEAR cs ce
           = (Some (UTC clk (LocalTime clk today - k * msPerDay)), Some maxTime)"
    by blast
qed

lemma today_minus5_eval:
  "Date_ymd clock_minus5 (now_fullYear clock_minus5) (now_month clock_minus5)
     (now_date clock_minus5) = Some 1707109200000"
  by (simp add: clock_minus5_def fixed_clock_def Date_ymd_def makeLocal_def
        fullYear_def UTC_def MakeDay_def DayFromYear_def InLeapYear_def daysBeforeMonth_def
        TimeClip_def maxTime_def msPerDay_def Let_def)

lemma today_minus5:
  "resolve_window clock_minus5 TODAY [] [] = (Some 1707109200000, Some 8640000000000000)"
  by (simp add: resolve_window_def clock_minus5_def fixed_clock_def Date_ymd_def makeLocal_def
        fullYear_def UTC_def MakeDay_def DayFromYear_def InLeapYear_def daysBeforeMonth_def
        TimeClip_def maxTime_def msPerDay_def Let_def)

lemma today_utc:
  "resolve_window clock_utc TODAY [] [] = (Some 1707091200000, Some 8640000000000000)"
  by (simp add: resolve_window_def clock_utc_def fixed_clock_def Date_ymd_def makeLocal_def
        fullYear_def UTC_def MakeDay_def DayFromYear_def InLeapYear_def daysBeforeMonth_def
        TimeClip_def maxTime_def msPerDay_def Let_def)

lemma custom_minus5:
  "resolve_window clock_minus5 CUSTOM ''2024-02-01'' ''2024-02-05''
     = (Some 1706745600000, Some 1707109199999)"
  by (simp add: resolve_window_CUSTOM parse_feb setHours_23_59_59_999_def clock_minus5_def
        fixed_clock_def LocalTime_def UTC_def msPerDay_def TimeClip_def maxTime_def Let_def)

lemma end_minus5:
  "end_of_calendar_day clock_minus5 ''2024-02-05'' = Some 1707195599999"
  by (simp add: end_of_calendar_day_def parse_ymd_def digits_def digit_def DaysInMonth_def
        InLeapYear_def MakeDay_def DayFromYear_def daysBeforeMonth_def msPerDay_def fullYear_def
        TimeClip_def maxTime_def clock_minus5_def fixed_clock_def UTC_def)

lemma custom_azores:
  "resolve_window clock_azores CUSTOM [] ''2024-10-27''
     = (Some 0, Some 1730077199999)"
  by (simp add: resolve_window_CUSTOM parse_more setHours_23_59_59_999_def clock_azores_def
        LocalTime_def UTC_def msPerDay_def TimeClip_def maxTime_def Let_def)

section \<open>Seed data and the repository\<close>

lemma seed_trade_feb5: "seed_trade seed_now 0 seed_draw = Some seeded_feb5"
  by code_simp

lemma seed_trade_id:
  "seed_trade now i r
     = map_option (\<lambda>t. t\<lparr>trade_id := ''test-'' @ show_nat i @ ''-'' @ r_id r\<rparr>)
         (seed_trade now 0 r)"
  by (simp add: seed_trade_def Let_def split: option.splits)

lemma seed_trade_seed_draw:
  "seed_trade seed_now i seed_draw
     = Some (seeded_feb5\<lparr>trade_id := ''test-'' @ show_nat i @ ''-'' @ r_id seed_draw\<rparr>)"
proof -
  have "seed_trade seed_now i seed_draw
     = map_option (\<lambda>t. t\<lparr>trade_id := ''test-'' @ show_nat i @ ''-'' @ r_id seed_draw\<rparr>)
         (seed_trade seed_now 0 seed_draw)"
    by (rule seed_trade_id)
  also have "\<dots> = Some (seeded_feb5\<lparr>trade_id := ''test-'' @ show_nat i @ ''-'' @ r_id seed_draw\<rparr>)"
    by (simp only: seed_trade_feb5 option.map)
  finally show ?thesis .
qed

lemma generateLargeDataset_seed_draw:
  "generateLargeDataset seed_now (\<lambda>i. seed_draw)
     = Some (sort_key (\<lambda>t. - timestamp t)
         (map (\<lambda>i. seeded_feb5\<lparr>trade_id := ''test-'' @ show_nat i @ ''-'' @ r_id seed_draw\<rparr>)
            [0..<1000]))"
proof -
  have "those (map (\<lambda>i. seed_trade seed_now i seed_draw) [0..<1000])
     = Some (map (\<lambda>i. seeded_feb5\<lparr>trade_id := ''test-'' @ show_nat i @ ''-'' @ r_id seed_draw\<rparr>)
          [0..<1000])"
    by (rule those_map_Some) (rule seed_trade_seed_draw)
  then show ?thesis
    unfolding generateLargeDataset_def by (simp only: option.map)
qed

lemma seeded_feb5_initial:
  "\<exists>ts. initial_trades [] seed_now (\<lambda>i. seed_draw) = Some ts \<and> seeded_feb5 \<in> set ts"
proof -
  let ?g = "\<lambda>i. seeded_feb5\<lparr>trade_id := ''test-'' @ show_nat i @ ''-'' @ r_id seed_draw\<rparr>"
  let ?ts = "sort_key (\<lambda>t. - timestamp t) (map ?g [0..<1000])"
  have "Some (?g 0) = Some seeded_feb5"
    using seed_trade_seed_draw [of 0] seed_trade_feb5 by (simp only:)
  then have g0: "?g 0 = seeded_feb5" by (simp only: option.inject)
  have "(0::nat) \<in> set [0..<1000]" by simp
  then have "?g 0 \<in> ?g ` set [0..<1000]" by (rule imageI)
  then have "seeded_feb5 \<in> set ?ts"
    unfolding g0 by (simp only: set_sort set_map)
  moreover have "initial_trades [] seed_now (\<lambda>i. seed_draw) = Some ?ts"
    by (simp add: initial_trades_def generateLargeDataset_seed_draw)
  ultimately show ?thesis by blast
qed

lemma localMidnight_minus5:
  "localMidnight clock_minus5 ''2024-02-05'' = Some 1707109200000"
  by (simp add: localMidnight_def parse_ymd_def digits_def digit_def DaysInMonth_def
        InLeapYear_def Date_ymd_def makeLocal_def fullYear_def MakeDay_def DayFromYear_def
        daysBeforeMonth_def msPerDay_def TimeClip_def maxTime_def clock_minus5_def fixed_clock_def UTC_def)

lemma localMidnight_utc:
  "localMidnight clock_utc ''2024-02-05'' = Some 1707091200000"
  by (simp add: localMidnight_def parse_ymd_def digits_def digit_def DaysInMonth_def
        InLeapYear_def Date_ymd_def makeLocal_def fullYear_def MakeDay_def DayFromYear_def
        daysBeforeMonth_def msPerDay_def TimeClip_def maxTime_def clock_utc_def fixed_clock_def UTC_def)

lemma handleSaveTrade_create:
  assumes "handleSaveTrade newId td st = Some st'" "editingTrade st = None"
  shows "\<exists>n. trades st' = trades st @ [n] \<and> trade_id n = newId \<and> date n = date td
             \<and> timestamp_from_date n"
  using assms
  by (auto simp: handleSaveTrade_def timestamp_from_date_def split: option.splits)

lemma handleSaveTrade_edit:
  assumes "handleSaveTrade newId td st = Some st'" "editingTrade st = Some e"
  shows "length (trades st') = length (trades st)
     \<and> (\<forall>i < length (trades st).
           trade_id (trades st' ! i) = trade_id (trades st ! i)
         \<and> (if trade_id (trades st ! i) = trade_id e
             then date (trades st' ! i) = date td \<and> timestamp_from_date (trades st' ! i)
             else trades st' ! i = trades st ! i))"
  using assms
  by (auto simp: handleSaveTrade_def timestamp_from_date_def split: option.splits)

lemma handleSaveTrade_preserves:
  assumes "handleSaveTrade newId td st = Some st'"
    and "\<forall>t \<in> set (trades st). timestamp_from_date t"
  shows "\<forall>t \<in> set (trades st'). timestamp_from_date t"
  using assms
  by (auto simp: handleSaveTrade_def timestamp_from_date_def split: option.splits if_splits)

lemma handleDeleteTrade_preserves:
  assumes "\<forall>t \<in> set (trades st). timestamp_from_date t"
  shows "\<forall>t \<in> set (trades (handleDeleteTrade c i st)). timestamp_from_date t"
  using assms by (simp add: handleDeleteTrade_def)

lemma handleSaveTrade_total:
  "Date_parse (date td) \<noteq> None \<Longrightarrow> \<exists>st'. handleSaveTrade newId td st = Some st'"
  by (auto simp: handleSaveTrade_def split: option.splits)

section \<open>Claims about the filter and the time window\<close>

text \<open>
  C4, as stated: the filter returns exactly the trades whose timestamp lies in the
  resolved interval. For \<open>ALL\<close> the interval is \<open>[0, maxTime]\<close>, from the epoch to the
  largest date, but the code makes no test of the timestamp at all: it keeps the trade
  that \<open>handleSaveTrade\<close> records for 1969-12-31, whose timestamp is a day before the
  epoch and outside the interval.
\<close>

theorem trade_before_epoch_kept:
  "resolve_window clock_utc ALL_tf [] [] = (Some 0, Some maxTime)
   \<and> map timestamp (saved_alone dec31_data) = [- 86400000]
   \<and> filteredTrades clock_utc (saved_alone dec31_data) [] ALL_tf [] [] = saved_alone dec31_data
   \<and> filter (\<lambda>t. sublist (toUpperCase []) (symbol t) \<and> 0 \<le> timestamp t \<and> timestamp t \<le> maxTime)
       (saved_alone dec31_data) = []"
  by (simp add: resolve_window_def Let_def TimeClip_def maxTime_def saved_dec31
        filteredTrades_ALL toUpperCase_def)

text \<open>
  C4, amended: for every trade list, clock, substring, time frame and custom dates, the
  filter returns exactly the trades whose symbol contains the upper-cased substring
  and, unless the time frame is \<open>ALL\<close>, whose timestamp \<open>t\<close> satisfies \<open>s \<le> t \<le> e\<close> for
  the resolved interval \<open>[s, e]\<close>, both bounds inclusive (a bound that is an Invalid
  Date admits no trade). For \<open>ALL\<close> the symbol alone decides. The empty substring is
  contained in every symbol. The result is a subsequence of the input, so the
  surviving trades keep their relative order. Filtering the result again with the same
  arguments changes nothing, and the result depends on the clock and the custom dates
  only through the resolved interval.
\<close>

theorem filteredTrades_exact:
  "filteredTrades clk ts sf timeFrame cs ce
     = filter (\<lambda>t. sublist (toUpperCase sf) (symbol t)
                 \<and> (timeFrame \<noteq> ALL_tf \<longrightarrow>
                      time_ge (timestamp t) (fst (resolve_window clk timeFrame cs ce))
                      \<and> time_le (timestamp t) (snd (resolve_window clk timeFrame cs ce)))) ts
   \<and> (resolve_window clk timeFrame cs ce = (Some s, Some e) \<longrightarrow>
        filteredTrades clk ts sf timeFrame cs ce
          = filter (\<lambda>t. sublist (toUpperCase sf) (symbol t)
                      \<and> (timeFrame \<noteq> ALL_tf \<longrightarrow> s \<le> timestamp t \<and> timestamp t \<le> e)) ts)
   \<and> sublist (toUpperCase []) (symbol t)
   \<and> subseq (filteredTrades clk ts sf timeFrame cs ce) ts
   \<and> filteredTrades clk (filteredTrades clk ts sf timeFrame cs ce) sf timeFrame cs ce
       = filteredTrades clk ts sf timeFrame cs ce
   \<and> (resolve_window clk timeFrame cs ce = resolve_window clk' timeFrame cs' ce' \<longrightarrow>
        filteredTrades clk ts sf timeFrame cs ce = filteredTrades clk' ts sf timeFrame cs' ce')"
proof -
  have 0: "filteredTrades clk ts sf timeFrame cs ce
     = filter (\<lambda>t. sublist (toUpperCase sf) (symbol t)
                 \<and> (timeFrame \<noteq> ALL_tf \<longrightarrow>
                      time_ge (timestamp t) (fst (resolve_window clk timeFrame cs ce))
                      \<and> time_le (timestamp t) (snd (resolve_window clk timeFrame cs ce)))) ts"
    by (rule filteredTrades_all_frames)
  have 1: "resolve_window clk timeFrame cs ce = (Some s, Some e) \<longrightarrow>
        filteredTrades clk ts sf timeFrame cs ce
          = filter (\<lambda>t. sublist (toUpperCase sf) (symbol t)
                      \<and> (timeFrame \<noteq> ALL_tf \<longrightarrow> s \<le> timestamp t \<and> timestamp t \<le> e)) ts"
    by (simp add: filteredTrades_all_frames)
  have 2: "sublist (toUpperCase []) (symbol t)"
    by (simp add: toUpperCase_def)
  have 3: "subseq (filteredTrades clk ts sf timeFrame cs ce) ts"
    by (simp add: filteredTrades_all_frames)
  have 4: "filteredTrades clk (filteredTrades clk ts sf timeFrame cs ce) sf timeFrame cs ce
       = filteredTrades clk ts sf timeFrame cs ce"
    unfolding filteredTrades_all_frames [of clk _ sf timeFrame cs ce] by simp
  have 5: "resolve_window clk timeFrame cs ce = resolve_window clk' timeFrame cs' ce' \<longrightarrow>
        filteredTrades clk ts sf timeFrame cs ce = filteredTrades clk' ts sf timeFrame cs' ce'"
    by (simp add: filteredTrades_all_frames)
  from 0 1 2 3 4 5 show ?thesis by blast
qed

theorem filteredTrades_exact_witness:
  "resolve_window clock_utc TODAY [] [] = (Some 1707091200000, Some 8640000000000000)
   \<and> filteredTrades clock_utc scenario4 ''aa'' TODAY [] []
       = filter (\<lambda>t. sublist ''AA'' (symbol t) \<and> 1707091200000 \<le> timestamp t
                   \<and> timestamp t \<le> 8640000000000000) scenario4
   \<and> filteredTrades clock_utc scenario4 ''aa'' TODAY [] [] = [hd scenario4]
   \<and> filteredTrades clock_utc scenario4 ''m'' TODAY [] [] = [last scenario4]
   \<and> filteredTrades clock_utc scenario1 ''aa'' CUSTOM ''2024-01-02'' [] = [last scenario1]
   \<and> filteredTrades clock_utc scenario1 ''aa'' ALL_tf [] [] = scenario1"
proof -
  have u: "toUpperCase ''aa'' = ''AA''" "toUpperCase ''m'' = ''M''"
    by code_simp+
  have w2: "resolve_window clock_utc CUSTOM ''2024-01-02'' [] = (Some 1704153600000, Some maxTime)"
    by (simp add: resolve_window_CUSTOM parse_more)
  have s: "sublist ''AA'' ''AAPL''" "\<not> sublist ''AA'' ''MSFT''"
    "\<not> sublist ''M'' ''AAPL''" "sublist ''M'' ''MSFT''"
    by (simp_all add: sublist_Cons_right)
  have a: "filteredTrades clock_utc scenario4 ''aa'' TODAY [] []
       = filter (\<lambda>t. sublist ''AA'' (symbol t) \<and> 1707091200000 \<le> timestamp t
                   \<and> timestamp t \<le> 8640000000000000) scenario4"
    using filteredTrades_exact [of clock_utc scenario4 "''aa''" TODAY "[]" "[]"
        1707091200000 8640000000000000 "hd scenario4" clock_utc "[]" "[]"] today_utc u
    by simp
  have b: "filteredTrades clock_utc scenario4 ''m'' TODAY [] []
       = filter (\<lambda>t. sublist ''M'' (symbol t) \<and> 1707091200000 \<le> timestamp t
                   \<and> timestamp t \<le> 8640000000000000) scenario4"
    using filteredTrades_exact [of clock_utc scenario4 "''m''" TODAY "[]" "[]"
        1707091200000 8640000000000000 "hd scenario4" clock_utc "[]" "[]"] today_utc u
    by simp
  have c: "filteredTrades clock_utc scenario1 ''aa'' CUSTOM ''2024-01-02'' []
       = filter (\<lambda>t. sublist ''AA'' (symbol t) \<and> 1704153600000 \<le> timestamp t
                   \<and> timestamp t \<le> maxTime) scenario1"
    using filteredTrades_exact [of clock_utc scenario1 "''aa''" CUSTOM "''2024-01-02''" "[]"
        1704153600000 maxTime "hd scenario1" clock_utc "[]" "[]"] w2 u
    by simp
  have d: "filteredTrades clock_utc scenario1 ''aa'' ALL_tf [] []
       = filter (\<lambda>t. sublist ''AA'' (symbol t)) scenario1"
    using filteredTrades_exact [of clock_utc scenario1 "''aa''" ALL_tf "[]" "[]"
        0 maxTime "hd scenario1" clock_utc "[]" "[]"] u
    by simp
  show ?thesis
    using today_utc a b c d s
    by (simp add: scenario4_eq scenario1_def maxTime_def)
qed

text \<open>
  C5. The claim: for \<open>CUSTOM\<close> the upper bound is the end date moved to the end of that
  calendar day, 23:59:59.999 local time, so that an end date 2024-02-05 includes a
  trade dated 2024-02-05. The code parses the end date as midnight UTC and then moves
  that instant to 23:59:59.999 of the local day that holds it. Five hours behind UTC
  the instant lies in the evening of 2024-02-04: the upper bound is
  2024-02-05T04:59:59.999Z, the last millisecond before 2024-02-05 starts in local
  time, and a day before the end of 2024-02-05 that the comment \<open>End of that day\<close>
  names. The seeded trade dated 2024-02-05, of 12:00 UTC and 07:00 local time on that
  day, is dropped. In the Azores, with the end date 2024-10-27, on which the clocks go
  back, the upper bound is 2024-10-28T00:59:59.999Z, and the trade recorded for
  2024-10-28 is kept.
\<close>

theorem custom_end_not_end_of_day:
  "resolve_window clock_minus5 CUSTOM ''2024-02-01'' ''2024-02-05''
     = (Some 1706745600000, Some 1707109199999)
   \<and> end_of_calendar_day clock_minus5 ''2024-02-05'' = Some 1707195599999
   \<and> localMidnight clock_minus5 ''2024-02-05'' = Some 1707109200000
   \<and> date seeded_feb5 = ''2024-02-05''
   \<and> timestamp seeded_feb5 = 1707134400000
   \<and> (\<exists>ts. initial_trades [] seed_now (\<lambda>i. seed_draw) = Some ts \<and> seeded_feb5 \<in> set ts)
   \<and> filteredTrades clock_minus5 [seeded_feb5] [] CUSTOM ''2024-02-01'' ''2024-02-05'' = []
   \<and> resolve_window clock_azores CUSTOM [] ''2024-10-27'' = (Some 0, Some 1730077199999)
   \<and> map date (saved_alone oct28_data) = [''2024-10-28'']
   \<and> filteredTrades clock_azores (saved_alone oct28_data) [] CUSTOM [] ''2024-10-27''
       = saved_alone oct28_data"
proof -
  have 1: "filteredTrades clock_minus5 [seeded_feb5] [] CUSTOM ''2024-02-01'' ''2024-02-05'' = []"
    by (simp add: filteredTrades_window custom_minus5 seeded_feb5_def)
  have 2: "filteredTrades clock_azores (saved_alone oct28_data) [] CUSTOM [] ''2024-10-27''
       = saved_alone oct28_data"
    by (simp add: filteredTrades_window custom_azores saved_oct28 toUpperCase_def)
  have 3: "date seeded_feb5 = ''2024-02-05''" "timestamp seeded_feb5 = 1707134400000"
    by (simp_all add: seeded_feb5_def)
  have 4: "map date (saved_alone oct28_data) = [''2024-10-28'']"
    by (simp add: saved_oct28)
  from custom_minus5 end_minus5 localMidnight_minus5 3 seeded_feb5_initial 1 custom_azores 4 2
  show ?thesis by blast
qed

text \<open>
  C6. On a clock whose date is a date of the years 100 to 9999 and whose offsets from
  UTC are at most a day, as is the difference of two offsets: for \<open>TODAY\<close>, \<open>WEEK\<close>,
  \<open>MONTH\<close>, \<open>YTD\<close> and \<open>YEAR\<close> the window is \<open>[s, maxTime]\<close>, its upper bound the largest
  date. The lower bound \<open>s\<close> is never later than \<open>today\<close>, the local midnight that starts
  the current day: it is \<open>today\<close> for \<open>TODAY\<close>, the local time of \<open>today\<close> moved back by 7
  days for \<open>WEEK\<close>, by 30 days for \<open>MONTH\<close> and by 365 or 366 days for \<open>YEAR\<close>, and the
  local midnight of 1 January of the current year for \<open>YTD\<close>. The filter returns
  exactly the trades with a matching symbol and a timestamp from \<open>s\<close> to \<open>maxTime\<close>. So it
  keeps every trade with a matching symbol whose timestamp is a time value at or after
  \<open>today\<close>, however far in the future; \<open>today\<close> itself is no later than midnight UTC
  of the next date, the timestamp that \<open>handleSaveTrade\<close> records for that date. For
  \<open>ALL\<close> the symbol alone decides.
\<close>

theorem non_custom_lower_bound_only:
  "(wf_clock clk \<and> timeFrame \<in> {TODAY, WEEK, MONTH, YTD, YEAR} \<longrightarrow>
      (\<exists>today s.
          Date_ymd clk (now_fullYear clk) (now_month clk) (now_date clk) = Some today
        \<and> today \<le> (MakeDay (now_fullYear clk) (now_month clk) (now_date clk) + 1) * msPerDay
        \<and> resolve_window clk timeFrame cs ce = (Some s, Some maxTime)
        \<and> s \<le> today
        \<and> (timeFrame = TODAY \<longrightarrow> s = today)
        \<and> (timeFrame = WEEK \<longrightarrow> s = UTC clk (LocalTime clk today - 7 * msPerDay))
        \<and> (timeFrame = MONTH \<longrightarrow> s = UTC clk (LocalTime clk today - 30 * msPerDay))
        \<and> (timeFrame = YTD \<longrightarrow> Date_ymd clk (now_fullYear clk) 0 1 = Some s)
        \<and> (timeFrame = YEAR \<longrightarrow>
              (\<exists>k \<in> {365, 366}. s = UTC clk (LocalTime clk today - k * msPerDay)))
        \<and> filteredTrades clk ts sf timeFrame cs ce
            = filter (\<lambda>t. sublist (toUpperCase sf) (symbol t)
                        \<and> s \<le> timestamp t \<and> timestamp t \<le> maxTime) ts
        \<and> (\<forall>t \<in> set ts.
              sublist (toUpperCase sf) (symbol t) \<and> today \<le> timestamp t \<and> timestamp t \<le> maxTime
              \<longrightarrow> t \<in> set (filteredTrades clk ts sf timeFrame cs ce))))
   \<and> filteredTrades clk ts sf ALL_tf cs ce = filter (\<lambda>t. sublist (toUpperCase sf) (symbol t)) ts"
proof -
  have "\<exists>today s.
          Date_ymd clk (now_fullYear clk) (now_month clk) (now_date clk) = Some today
        \<and> today \<le> (MakeDay (now_fullYear clk) (now_month clk) (now_date clk) + 1) * msPerDay
        \<and> resolve_window clk timeFrame cs ce = (Some s, Some maxTime)
        \<and> s \<le> today
        \<and> (timeFrame = TODAY \<longrightarrow> s = today)
        \<and> (timeFrame = WEEK \<longrightarrow> s = UTC clk (LocalTime clk today - 7 * msPerDay))
        \<and> (timeFrame = MONTH \<longrightarrow> s = UTC clk (LocalTime clk today - 30 * msPerDay))
        \<and> (timeFrame = YTD \<longrightarrow> Date_ymd clk (now_fullYear clk) 0 1 = Some s)
        \<and> (timeFrame = YEAR \<longrightarrow>
              (\<exists>k \<in> {365, 366}. s = UTC clk (LocalTime clk today - k * msPerDay)))
        \<and> filteredTrades clk ts sf timeFrame cs ce
            = filter (\<lambda>t. sublist (toUpperCase sf) (symbol t)
                        \<and> s \<le> timestamp t \<and> timestamp t \<le> maxTime) ts
        \<and> (\<forall>t \<in> set ts.
              sublist (toUpperCase sf) (symbol t) \<and> today \<le> timestamp t \<and> timestamp t \<le> maxTime
              \<longrightarrow> t \<in> set (filteredTrades clk ts sf timeFrame cs ce))"
    if wf: "wf_clock clk" and tf: "timeFrame \<in> {TODAY, WEEK, MONTH, YTD, YEAR}"
  proof -
    define today where
      "today = UTC clk (MakeDay (now_fullYear clk) (now_month clk) (now_date clk) * msPerDay)"
    have t: "Date_ymd clk (now_fullYear clk) (now_month clk) (now_date clk) = Some today"
      and b: "- 720001 * msPerDay \<le> today" "today \<le> 2934001 * msPerDay"
      and n: "today \<le> (MakeDay (now_fullYear clk) (now_month clk) (now_date clk) + 1) * msPerDay"
      unfolding today_def by (rule wf_today [OF wf])+
    note w = resolve_window_start [OF wf t, of cs ce]
    have "\<exists>s. resolve_window clk timeFrame cs ce = (Some s, Some maxTime)
        \<and> s \<le> today
        \<and> (timeFrame = TODAY \<longrightarrow> s = today)
        \<and> (timeFrame = WEEK \<longrightarrow> s = UTC clk (LocalTime clk today - 7 * msPerDay))
        \<and> (timeFrame = MONTH \<longrightarrow> s = UTC clk (LocalTime clk today - 30 * msPerDay))
        \<and> (timeFrame = YTD \<longrightarrow> Date_ymd clk (now_fullYear clk) 0 1 = Some s)
        \<and> (timeFrame = YEAR \<longrightarrow>
              (\<exists>k \<in> {365, 366}. s = UTC clk (LocalTime clk today - k * msPerDay)))"
    proof (cases timeFrame)
      case TODAY
      then show ?thesis using w(1) by simp
    next
      case WEEK
      then show ?thesis using w(2) shift_back(2) [OF wf b, of 7] by simp
    next
      case MONTH
      then show ?thesis using w(3) shift_back(2) [OF wf b, of 30] by simp
    next
      case YTD
      then show ?thesis
        using w(4) wf_year_start [OF wf] by (simp add: today_def)
    next
      case YEAR
      from w(5) obtain k where k: "k \<in> {365, 366}"
        and r: "resolve_window clk YEAR cs ce
           = (Some (UTC clk (LocalTime clk today - k * msPerDay)), Some maxTime)"
        by blast
      from k have "2 \<le> k" "k \<le> 366" by auto
      from shift_back(2) [OF wf b this] k r YEAR show ?thesis by auto
    qed (use tf in simp_all)
    then obtain s where s: "resolve_window clk timeFrame cs ce = (Some s, Some maxTime)"
      and le: "s \<le> today"
      and loc: "timeFrame = TODAY \<longrightarrow> s = today"
        "timeFrame = WEEK \<longrightarrow> s = UTC clk (LocalTime clk today - 7 * msPerDay)"
        "timeFrame = MONTH \<longrightarrow> s = UTC clk (LocalTime clk today - 30 * msPerDay)"
        "timeFrame = YTD \<longrightarrow> Date_ymd clk (now_fullYear clk) 0 1 = Some s"
        "timeFrame = YEAR \<longrightarrow>
              (\<exists>k \<in> {365, 366}. s = UTC clk (LocalTime clk today - k * msPerDay))"
      by blast
    from tf have "timeFrame \<noteq> ALL_tf" by auto
    then have f: "filteredTrades clk ts sf timeFrame cs ce
            = filter (\<lambda>t. sublist (toUpperCase sf) (symbol t)
                        \<and> s \<le> timestamp t \<and> timestamp t \<le> maxTime) ts"
      by (simp add: filteredTrades_window s)
    have k: "\<forall>t \<in> set ts.
              sublist (toUpperCase sf) (symbol t) \<and> today \<le> timestamp t \<and> timestamp t \<le> maxTime
              \<longrightarrow> t \<in> set (filteredTrades clk ts sf timeFrame cs ce)"
      unfolding f using le by auto
    from t n s le loc f k show ?thesis by blast
  qed
  then show ?thesis using filteredTrades_ALL [of clk ts sf cs ce] by blast
qed

theorem non_custom_lower_bound_only_witness:
  "wf_clock clock_minus5
   \<and> resolve_window clock_minus5 TODAY [] [] = (Some 1707109200000, Some maxTime)
   \<and> resolve_window clock_minus5 WEEK [] [] = (Some 1706504400000, Some maxTime)
   \<and> map date (scenario4 @ [future_trade]) = [''2024-02-05'', ''2024-02-06'', ''2100-01-01'']
   \<and> map date (filteredTrades clock_minus5 (scenario4 @ [future_trade]) [] TODAY [] [])
       = [''2024-02-06'', ''2100-01-01'']
   \<and> filteredTrades clock_minus5 (scenario4 @ [future_trade]) [] WEEK [] []
       = scenario4 @ [future_trade]
   \<and> filteredTrades clock_minus5 (scenario4 @ [future_trade]) [] ALL_tf [] []
       = scenario4 @ [future_trade]"
proof -
  let ?ts = "scenario4 @ [future_trade]"
  have wf: "wf_clock clock_minus5"
    by (simp add: wf_clock_def clock_minus5_def fixed_clock_def msPerDay_def)
  have u: "UTC clock_minus5 (LocalTime clock_minus5 1707109200000 - 7 * msPerDay) = 1706504400000"
    by (simp add: UTC_def LocalTime_def clock_minus5_def fixed_clock_def msPerDay_def)
  have "wf_clock clock_minus5 \<and> TODAY \<in> {TODAY, WEEK, MONTH, YTD, YEAR}"
    using wf by simp
  with non_custom_lower_bound_only [of clock_minus5 TODAY "[]" "[]" ?ts "[]"]
  obtain today s where
    a: "Date_ymd clock_minus5 (now_fullYear clock_minus5) (now_month clock_minus5)
          (now_date clock_minus5) = Some today"
      "resolve_window clock_minus5 TODAY [] [] = (Some s, Some maxTime)"
      "TODAY = TODAY \<longrightarrow> s = today"
      "filteredTrades clock_minus5 ?ts [] TODAY [] []
         = filter (\<lambda>t. sublist (toUpperCase []) (symbol t)
                     \<and> s \<le> timestamp t \<and> timestamp t \<le> maxTime) ?ts"
    by blast
  from a(1) today_minus5_eval have today: "today = 1707109200000" by simp
  with a(3) have s: "s = 1707109200000" by simp
  have T: "resolve_window clock_minus5 TODAY [] [] = (Some 1707109200000, Some maxTime)"
    using a(2) s by simp
  have FT: "map date (filteredTrades clock_minus5 ?ts [] TODAY [] [])
       = [''2024-02-06'', ''2100-01-01'']"
    unfolding a(4) s
    by (simp add: scenario4_eq future_trade_def toUpperCase_def maxTime_def)
  have "wf_clock clock_minus5 \<and> WEEK \<in> {TODAY, WEEK, MONTH, YTD, YEAR}"
    using wf by simp
  with non_custom_lower_bound_only [of clock_minus5 WEEK "[]" "[]" ?ts "[]"]
  obtain today' s' where
    b: "Date_ymd clock_minus5 (now_fullYear clock_minus5) (now_month clock_minus5)
          (now_date clock_minus5) = Some today'"
      "resolve_window clock_minus5 WEEK [] [] = (Some s', Some maxTime)"
      "WEEK = WEEK \<longrightarrow> s' = UTC clock_minus5 (LocalTime clock_minus5 today' - 7 * msPerDay)"
      "filteredTrades clock_minus5 ?ts [] WEEK [] []
         = filter (\<lambda>t. sublist (toUpperCase []) (symbol t)
                     \<and> s' \<le> timestamp t \<and> timestamp t \<le> maxTime) ?ts"
    by blast
  from b(1) today_minus5_eval have today': "today' = 1707109200000" by simp
  with b(3) u have s': "s' = 1706504400000" by simp
  have W: "resolve_window clock_minus5 WEEK [] [] = (Some 1706504400000, Some maxTime)"
    using b(2) s' by simp
  have FW: "filteredTrades clock_minus5 ?ts [] WEEK [] [] = ?ts"
    unfolding b(4) s'
    by (simp add: scenario4_eq future_trade_def toUpperCase_def maxTime_def)
  have FA: "filteredTrades clock_minus5 ?ts [] ALL_tf [] [] = ?ts"
    using non_custom_lower_bound_only [of clock_minus5 TODAY "[]" "[]" ?ts "[]"]
    by (simp add: toUpperCase_def)
  have d: "map date ?ts = [''2024-02-05'', ''2024-02-06'', ''2100-01-01'']"
    by (simp add: scenario4_eq future_trade_def)
  from wf T W d FT FW FA show ?thesis by blast
qed

section \<open>Claim about the timestamp of a trade\<close>

text \<open>
  C9. The claim: every trade of the repository has the timestamp of its date at local
  midnight. \<open>handleSaveTrade\<close> stores \<open>new Date(date).getTime()\<close>, and a date of the form
  \<open>YYYY-MM-DD\<close> is parsed as midnight UTC. Five hours behind UTC, the trade recorded for
  2024-02-05 has the timestamp 2024-02-05T00:00:00Z, which is 19:00 of 2024-02-04 in
  local time, five hours before the local midnight of its date. On 2024-02-05 the
  window of \<open>TODAY\<close> starts at that local midnight, and the filter drops the trade
  recorded for the current day. The seed data, the initial content of the repository,
  holds a trade dated 2024-02-05 with the timestamp of 2024-02-05T12:00:00Z, which is
  midnight neither at UTC nor five hours behind it.
\<close>

theorem timestamp_not_local_midnight:
  "handleSaveTrade ''t5'' feb5_data empty_state
     = Some \<lparr>trades = [hd scenario4], editingTrade = None, isModalOpen = False\<rparr>
   \<and> date (hd scenario4) = ''2024-02-05''
   \<and> timestamp (hd scenario4) = 1707091200000
   \<and> localMidnight clock_minus5 ''2024-02-05'' = Some 1707109200000
   \<and> \<not> timestamp_at_local_midnight clock_minus5 (hd scenario4)
   \<and> resolve_window clock_minus5 TODAY [] [] = (Some 1707109200000, Some maxTime)
   \<and> map date scenario4 = [''2024-02-05'', ''2024-02-06'']
   \<and> map date (filteredTrades clock_minus5 scenario4 [] TODAY [] []) = [''2024-02-06'']
   \<and> (\<exists>ts. initial_trades [] seed_now (\<lambda>i. seed_draw) = Some ts \<and> seeded_feb5 \<in> set ts)
   \<and> \<not> timestamp_at_local_midnight clock_utc seeded_feb5
   \<and> \<not> timestamp_at_local_midnight clock_minus5 seeded_feb5"
proof -
  have 1: "handleSaveTrade ''t5'' feb5_data empty_state
     = Some \<lparr>trades = [hd scenario4], editingTrade = None, isModalOpen = False\<rparr>"
    by (simp add: handleSaveTrade_def feb5_data_def empty_state_def parse_feb scenario4_eq)
  have 2: "date (hd scenario4) = ''2024-02-05''" "timestamp (hd scenario4) = 1707091200000"
    "map date scenario4 = [''2024-02-05'', ''2024-02-06'']"
    by (simp_all add: scenario4_eq)
  have 3: "\<not> timestamp_at_local_midnight clock_minus5 (hd scenario4)"
    "\<not> timestamp_at_local_midnight clock_utc seeded_feb5"
    "\<not> timestamp_at_local_midnight clock_minus5 seeded_feb5"
    by (simp_all add: timestamp_at_local_midnight_def scenario4_eq seeded_feb5_def
          localMidnight_minus5 localMidnight_utc)
  have 4: "resolve_window clock_minus5 TODAY [] [] = (Some 1707109200000, Some maxTime)"
    by (simp add: today_minus5 maxTime_def)
  have 5: "map date (filteredTrades clock_minus5 scenario4 [] TODAY [] []) = [''2024-02-06'']"
    by (simp add: filteredTrades_window 4 scenario4_eq toUpperCase_def maxTime_def)
  from 1 2 localMidnight_minus5 3 4 5 seeded_feb5_initial show ?thesis by blast
qed

section \<open>Keys of an object\<close>

lemma set_Object_keys: "set (Object_keys obj) = fst ` set obj"
  by (auto simp: Object_keys_def Let_def)

lemma distinct_Object_keys:
  "distinct (map fst obj) \<Longrightarrow> distinct (Object_keys obj)"
  by (auto simp: Object_keys_def Let_def distinct_map_filter)

lemma sort_Object_keys:
  assumes "distinct (map fst obj)"
  shows "sort (Object_keys obj) = sorted_list_of_set (fst ` set obj)"
proof -
  have "sorted_list_of_set (set (Object_keys obj)) = sort (remdups (Object_keys obj))"
    by (rule sorted_list_of_set_sort_remdups)
  then show ?thesis
    using distinct_Object_keys [OF assms] by (simp add: set_Object_keys distinct_remdups_id)
qed

section \<open>Rounded statistics\<close>

lemma profit_r_exact: "profit_r (\<lambda>x. x) t = profit t"
  by (simp add: profit_r_def profit_def)

lemma scan_step_r_exact: "scan_step_r (\<lambda>x. x) = scan_step"
  by (intro ext) (simp add: scan_step_r_def scan_step_def)

lemma js_divide_r_exact: "js_divide_r (\<lambda>x. x) a b = js_divide a b"
  by (simp add: js_divide_r_def js_divide_def)

lemma js_times_r_exact: "js_times_r (\<lambda>x. x) a c = js_times a c"
  by (cases a) simp_all

lemma stats_r_exact: "stats_r (\<lambda>x. x) ts = stats ts"
  by (simp add: stats_r_def stats_def Let_def scan_step_r_exact js_divide_r_exact js_times_r_exact)

lemma s_totalProfit_fold_r:
  "s_totalProfit (fold (scan_step_r rnd) cs s)
     = foldl (\<lambda>a x. rnd (a + x)) (s_totalProfit s) (map (profit_r rnd) cs)"
  by (induction cs arbitrary: s) (simp_all add: scan_step_r_def profit_r_def Let_def)

lemma stats_r_totalProfit:
  "totalProfit (stats_r rnd ts) = Num (sum_r rnd (map (profit_r rnd) (closedTrades ts)))"
  by (simp add: stats_r_def Let_def s_totalProfit_fold_r sum_r_def scan_init_def closedTrades_def)

lemma foldl_plus_exact: "foldl (\<lambda>s x. s + x) (r::rat) xs = r + sum_list xs"
  by (induction xs arbitrary: r) simp_all

lemma sum_r_exact: "sum_r (\<lambda>x. x) xs = sum_list xs"
  by (simp add: sum_r_def foldl_plus_exact)

section \<open>Daily profits\<close>

lemma dailyProfits_step_open: "sellPrice t = None \<Longrightarrow> dailyProfits_step rnd t dp = dp"
  by (simp add: dailyProfits_step_def)

lemma fold_dailyProfits_closed:
  "fold (dailyProfits_step rnd) ts dp = fold (dailyProfits_step rnd) (closedTrades ts) dp"
  by (induction ts arbitrary: dp) (simp_all add: closedTrades_def dailyProfits_step_open)

lemma distinct_dailyProfits_step:
  "distinct (map fst dp) \<Longrightarrow> distinct (map fst (dailyProfits_step rnd t dp))"
  by (simp add: dailyProfits_step_def Let_def distinct_update)

lemma distinct_fold_dailyProfits:
  "distinct (map fst dp) \<Longrightarrow> distinct (map fst (fold (dailyProfits_step rnd) ts dp))"
  by (induction ts arbitrary: dp) (simp_all add: distinct_dailyProfits_step)

lemma keys_dailyProfits_step:
  "fst ` set (dailyProfits_step rnd t dp)
     = (if sellPrice t \<noteq> None then insert (date t) (fst ` set dp) else fst ` set dp)"
  by (simp add: dailyProfits_step_def Let_def dom_update)

lemma keys_fold_dailyProfits:
  "fst ` set (fold (dailyProfits_step rnd) ts dp) = fst ` set dp \<union> date ` set (closedTrades ts)"
  by (induction ts arbitrary: dp) (auto simp: keys_dailyProfits_step closedTrades_def)

lemma stored_dailyProfits_step:
  "stored (dailyProfits_step rnd t dp) d
     = (if sellPrice t \<noteq> None \<and> date t = d then rnd (stored dp d + profit_r rnd t)
        else stored dp d)"
  by (cases "map_of dp (date t)")
     (auto simp: dailyProfits_step_def Let_def stored_def update_conv' profit_r_def)

lemma stored_fold_dailyProfits:
  "stored (fold (dailyProfits_step rnd) ts dp) d
     = foldl (\<lambda>s x. rnd (s + x)) (stored dp d)
         (map (profit_r rnd) [t \<leftarrow> closedTrades ts. date t = d])"
  by (induction ts arbitrary: dp) (simp_all add: stored_dailyProfits_step closedTrades_def)

lemma number_prop_stored:
  "k \<in> fst ` set obj \<Longrightarrow> number_prop obj k = Num (stored obj k)"
  by (auto simp: number_prop_def stored_def map_of_eq_None_iff split: option.splits)

section \<open>Running totals\<close>

lemma length_cumulate: "length (cumulate rnd dp r ks) = length ks"
  by (induction ks arbitrary: r) (simp_all add: Let_def)

lemma map_cp_date_cumulate: "map cp_date (cumulate rnd dp r ks) = ks"
  by (induction ks arbitrary: r) (simp_all add: Let_def)

lemma cumulate_nth:
  assumes "set ks \<subseteq> fst ` set dp" "i < length ks"
  shows "cumulate rnd dp (Num r) ks ! i
           = \<lparr>cp_date = ks ! i, dailyProfit = Num (stored dp (ks ! i)),
              cumulative = Num (foldl (\<lambda>s x. rnd (s + x)) r (map (stored dp) (take (Suc i) ks)))\<rparr>"
  using assms
proof (induction ks arbitrary: r i)
  case Nil
  then show ?case by simp
next
  case (Cons k ks)
  have k: "number_prop dp k = Num (stored dp k)"
    using Cons.prems(1) by (simp add: number_prop_stored)
  show ?case
  proof (cases i)
    case 0
    then show ?thesis by (simp add: Let_def k)
  next
    case (Suc j)
    with Cons.prems have "set ks \<subseteq> fst ` set dp" "j < length ks" by simp_all
    from Cons.IH [OF this, of "rnd (r + stored dp k)"] show ?thesis
      by (simp add: Let_def k Suc)
  qed
qed

section \<open>Sums by key\<close>

lemma sorted_distinct_take:
  assumes "sorted ks" "distinct ks" "i < length ks"
  shows "set (take (Suc i) ks) = {k \<in> set ks. k \<le> ks ! i}"
proof (intro set_eqI iffI)
  fix k assume "k \<in> set (take (Suc i) ks)"
  then obtain j where j: "j < Suc i" "k = ks ! j"
    using assms(3) by (auto simp: in_set_conv_nth)
  then have "ks ! j \<le> ks ! i"
    using assms(1,3) by (intro sorted_nth_mono) simp_all
  with j assms(3) show "k \<in> {k \<in> set ks. k \<le> ks ! i}" by simp
next
  fix k assume "k \<in> {k \<in> set ks. k \<le> ks ! i}"
  then obtain j where j: "j < length ks" "k = ks ! j" "ks ! j \<le> ks ! i"
    by (auto simp: in_set_conv_nth)
  have "j \<le> i"
  proof (rule ccontr)
    assume "\<not> j \<le> i"
    then have ij: "i < j" by simp
    then have "ks ! i \<le> ks ! j" using assms(1) j(1) by (intro sorted_nth_mono) simp_all
    with j(3) have "ks ! i = ks ! j" by simp
    with assms(2,3) j(1) ij show False by (simp add: nth_eq_iff_index_eq)
  qed
  with j show "k \<in> set (take (Suc i) ks)"
    by (auto simp: in_set_conv_nth intro!: exI [of _ j])
qed

lemma sum_by_key:
  fixes f :: "'a \<Rightarrow> rat" and key :: "'a \<Rightarrow> 'k"
  assumes "finite S"
  shows "(\<Sum>d \<in> S. sum_list (map f [t \<leftarrow> xs. key t = d])) = sum_list (map f [t \<leftarrow> xs. key t \<in> S])"
proof (induction xs)
  case Nil
  then show ?case by simp
next
  case (Cons x xs)
  have "(\<Sum>d \<in> S. sum_list (map f [t \<leftarrow> x # xs. key t = d]))
      = (\<Sum>d \<in> S. (if key x = d then f x else 0) + sum_list (map f [t \<leftarrow> xs. key t = d]))"
    by (intro sum.cong) simp_all
  also have "\<dots> = (\<Sum>d \<in> S. if key x = d then f x else 0)
                  + (\<Sum>d \<in> S. sum_list (map f [t \<leftarrow> xs. key t = d]))"
    by (simp add: sum.distrib)
  also have "(\<Sum>d \<in> S. if key x = d then f x else 0) = (if key x \<in> S then f x else 0)"
    using assms by (simp add: sum.delta')
  finally show ?case using Cons.IH by simp
qed

section \<open>The series\<close>

lemma chartData_dates:
  "map cp_date (chartData rnd ts) = sorted_list_of_set (date ` set (closedTrades ts))"
proof -
  have "distinct (map fst (fold (dailyProfits_step rnd) ts []))"
    by (rule distinct_fold_dailyProfits) simp
  from sort_Object_keys [OF this] show ?thesis
    by (simp add: chartData_def Let_def map_cp_date_cumulate keys_fold_dailyProfits)
qed

lemma chartData_nth:
  assumes "i < length (chartData rnd ts)"
  shows "dailyProfit (chartData rnd ts ! i)
           = Num (sum_r rnd (map (profit_r rnd)
                    [t \<leftarrow> closedTrades ts. date t = cp_date (chartData rnd ts ! i)]))"
    and "cumulative (chartData rnd ts ! i)
           = Num (sum_r rnd (map (\<lambda>d. sum_r rnd (map (profit_r rnd) [t \<leftarrow> closedTrades ts. date t = d]))
                    (take (Suc i) (sorted_list_of_set (date ` set (closedTrades ts))))))"
proof -
  define dp where "dp = fold (dailyProfits_step rnd) ts []"
  define D where "D = date ` set (closedTrades ts)"
  define ks where "ks = sorted_list_of_set D"
  have keys: "fst ` set dp = D"
    by (simp add: dp_def D_def keys_fold_dailyProfits)
  have dist: "distinct (map fst dp)"
    unfolding dp_def by (rule distinct_fold_dailyProfits) simp
  have "sort (Object_keys dp) = ks"
    unfolding ks_def keys [symmetric] by (rule sort_Object_keys [OF dist])
  then have cd: "chartData rnd ts = cumulate rnd dp (Num 0) ks"
    unfolding chartData_def Let_def dp_def [symmetric] by simp
  have ks: "set ks = D" by (simp add: ks_def D_def)
  have st: "stored dp = (\<lambda>d. sum_r rnd (map (profit_r rnd) [t \<leftarrow> closedTrades ts. date t = d]))"
    using stored_fold_dailyProfits [of rnd ts "[]"] by (auto simp: dp_def stored_def sum_r_def)
  have i: "i < length ks" using assms by (simp add: cd length_cumulate)
  have sub: "set ks \<subseteq> fst ` set dp" by (simp add: ks keys)
  have p: "chartData rnd ts ! i = \<lparr>cp_date = ks ! i, dailyProfit = Num (stored dp (ks ! i)),
              cumulative = Num (foldl (\<lambda>s x. rnd (s + x)) 0 (map (stored dp) (take (Suc i) ks)))\<rparr>"
    unfolding cd by (rule cumulate_nth [OF sub i])
  show "dailyProfit (chartData rnd ts ! i)
           = Num (sum_r rnd (map (profit_r rnd)
                    [t \<leftarrow> closedTrades ts. date t = cp_date (chartData rnd ts ! i)]))"
    by (simp add: p st)
  show "cumulative (chartData rnd ts ! i)
           = Num (sum_r rnd (map (\<lambda>d. sum_r rnd (map (profit_r rnd) [t \<leftarrow> closedTrades ts. date t = d]))
                    (take (Suc i) (sorted_list_of_set (date ` set (closedTrades ts))))))"
    unfolding p st ks_def D_def by (simp add: sum_r_def)
qed

lemma chartData_point_exact:
  assumes "p \<in> set (chartData (\<lambda>x. x) ts)"
  shows "dailyProfit p = Num (sum_list (map profit [t \<leftarrow> closedTrades ts. date t = cp_date p]))"
    and "cumulative p = Num (sum_list (map profit [t \<leftarrow> closedTrades ts. date t \<le> cp_date p]))"
proof -
  let ?c = "chartData (\<lambda>x. x) ts"
  let ?ks = "sorted_list_of_set (date ` set (closedTrades ts))"
  have dates: "map cp_date ?c = ?ks" by (rule chartData_dates)
  then have len: "length ?c = length ?ks" by (metis length_map)
  from assms obtain i where i: "i < length ?c" "p = ?c ! i"
    by (auto simp: in_set_conv_nth)
  have d: "cp_date p = ?ks ! i"
    using i dates by (metis nth_map)
  have ks: "sorted ?ks" "distinct ?ks" by simp_all
  have i': "i < length ?ks" using i(1) len by simp
  show "dailyProfit p = Num (sum_list (map profit [t \<leftarrow> closedTrades ts. date t = cp_date p]))"
    unfolding i(2) chartData_nth(1) [OF i(1)]
    by (simp add: sum_r_exact profit_r_exact [abs_def])
  have "cumulative p
      = Num (sum_list (map (\<lambda>d. sum_list (map profit [t \<leftarrow> closedTrades ts. date t = d]))
               (take (Suc i) ?ks)))"
    unfolding i(2) chartData_nth(2) [OF i(1)]
    by (simp add: sum_r_exact profit_r_exact [abs_def])
  also have "sum_list (map (\<lambda>d. sum_list (map profit [t \<leftarrow> closedTrades ts. date t = d]))
               (take (Suc i) ?ks))
      = (\<Sum>d \<in> set (take (Suc i) ?ks). sum_list (map profit [t \<leftarrow> closedTrades ts. date t = d]))"
    using ks(2) by (intro sum_list_distinct_conv_sum_set) simp
  also have "\<dots> = sum_list (map profit [t \<leftarrow> closedTrades ts. date t \<in> set (take (Suc i) ?ks)])"
    by (rule sum_by_key) simp
  also have "[t \<leftarrow> closedTrades ts. date t \<in> set (take (Suc i) ?ks)]
           = [t \<leftarrow> closedTrades ts. date t \<le> ?ks ! i]"
    unfolding sorted_distinct_take [OF ks i']
    by (intro filter_cong) auto
  finally show "cumulative p
      = Num (sum_list (map profit [t \<leftarrow> closedTrades ts. date t \<le> cp_date p]))"
    by (simp add: d)
qed

lemma chartData_empty_iff: "chartData rnd ts = [] \<longleftrightarrow> closedTrades ts = []"
proof -
  have "chartData rnd ts = [] \<longleftrightarrow> map cp_date (chartData rnd ts) = []" by simp
  also have "\<dots> \<longleftrightarrow> date ` set (closedTrades ts) = {}"
    unfolding chartData_dates by (simp add: sorted_list_of_set_eq_Nil_iff)
  finally show ?thesis by simp
qed

lemma chartData_closed: "chartData rnd ts = chartData rnd (closedTrades ts)"
  unfolding chartData_def using fold_dailyProfits_closed [of rnd ts "[]"]
  by (simp add: closedTrades_def)

lemma chartData_last_exact:
  assumes "chartData (\<lambda>x. x) ts \<noteq> []"
  shows "cumulative (last (chartData (\<lambda>x. x) ts)) = totalProfit (stats ts)"
proof -
  let ?c = "chartData (\<lambda>x. x) ts"
  let ?ks = "sorted_list_of_set (date ` set (closedTrades ts))"
  have len: "length ?c = length ?ks"
    using chartData_dates [of "\<lambda>x. x" ts] by (metis length_map)
  have i: "length ?c - 1 < length ?c" using assms by simp
  have tk: "take (Suc (length ?c - 1)) ?ks = ?ks"
    using assms len by simp
  have "cumulative (last ?c) = cumulative (?c ! (length ?c - 1))"
    using assms by (simp add: last_conv_nth)
  also have "\<dots> = Num (sum_list (map (\<lambda>d. sum_list (map profit [t \<leftarrow> closedTrades ts. date t = d])) ?ks))"
    unfolding chartData_nth(2) [OF i] tk by (simp add: sum_r_exact profit_r_exact [abs_def])
  also have "sum_list (map (\<lambda>d. sum_list (map profit [t \<leftarrow> closedTrades ts. date t = d])) ?ks)
      = (\<Sum>d \<in> set ?ks. sum_list (map profit [t \<leftarrow> closedTrades ts. date t = d]))"
    by (intro sum_list_distinct_conv_sum_set) simp
  also have "\<dots> = sum_list (map profit [t \<leftarrow> closedTrades ts. date t \<in> set ?ks])"
    by (rule sum_by_key) simp
  also have "[t \<leftarrow> closedTrades ts. date t \<in> set ?ks] = closedTrades ts"
    by (simp add: filter_id_conv)
  finally show ?thesis by (simp add: stats_totalProfit)
qed

section \<open>The series in double precision\<close>

text \<open>The double nearest to 0.1, and the prices of \<open>rounding_trades\<close>.\<close>

lemma round_double_tenth: "round_double (1 / 10) = 3602879701896397 / 36028797018963968"
  by code_simp

lemma rounding_prices:
  "round_double (12 / 10) = 5404319552844595 / 4503599627370496"
  "round_double (35 / 10) = 7 / 2"
  "round_double (11 / 10) = 2476979795053773 / 2251799813685248"
  by code_simp+

lemma rounding_chart:
  "chartData round_double rounding_trades
     = [\<lparr>cp_date = ''2024-01-01'', dailyProfit = Num (5 / 2), cumulative = Num (5 / 2)\<rparr>,
        \<lparr>cp_date = ''2024-01-02'', dailyProfit = Num (5404319552844596 / 18014398509481984),
          cumulative = Num (6305039478318694 / 2251799813685248)\<rparr>]"
  by code_simp

lemma rounding_total:
  "totalProfit (stats_r round_double rounding_trades) = Num (6305039478318695 / 2251799813685248)"
  by code_simp

section \<open>Claim about the chart data\<close>

text \<open>
  C7, as stated: the cumulative value at the last date equals the \<open>totalProfit\<close> of the
  statistics on the same list. The statistics add the profits in the order of the
  list; the series adds them date by date and then adds the daily sums, and in double
  precision the two orders round differently. For three trades sold at 1.2, 3.5 and
  1.1, bought at 1 and dated 2024-01-02, 2024-01-01 and 2024-01-02, the last cumulative
  value is 2.8 and \<open>totalProfit\<close> is 2.8000000000000003, the next double.
\<close>

theorem chart_total_differs_in_doubles:
  "map sellPrice rounding_trades
     = [Some (5404319552844595 / 4503599627370496), Some (7 / 2),
        Some (2476979795053773 / 2251799813685248)]
   \<and> map date rounding_trades = [''2024-01-02'', ''2024-01-01'', ''2024-01-02'']
   \<and> cumulative (last (chartData round_double rounding_trades))
       = Num (6305039478318694 / 2251799813685248)
   \<and> totalProfit (stats_r round_double rounding_trades)
       = Num (6305039478318695 / 2251799813685248)
   \<and> cumulative (last (chartData round_double rounding_trades))
       \<noteq> totalProfit (stats_r round_double rounding_trades)"
proof -
  have 1: "map sellPrice rounding_trades
     = [Some (5404319552844595 / 4503599627370496), Some (7 / 2),
        Some (2476979795053773 / 2251799813685248)]"
    by code_simp
  have 2: "map date rounding_trades = [''2024-01-02'', ''2024-01-01'', ''2024-01-02'']"
    by (simp add: rounding_trades_def)
  have 3: "cumulative (last (chartData round_double rounding_trades))
       = Num (6305039478318694 / 2251799813685248)"
    by (simp add: rounding_chart)
  note 4 = rounding_total
  have 5: "cumulative (last (chartData round_double rounding_trades))
       \<noteq> totalProfit (stats_r round_double rounding_trades)"
    unfolding 3 4 by simp
  from 1 2 3 4 5 show ?thesis by blast
qed

text \<open>
  C7, amended. For every rounding \<open>rnd\<close> of the arithmetic and every trade list: the
  dates of the series are the distinct dates of the closed trades in lexicographic
  order. The daily profit of a point is the sum of the profits of the closed trades of
  its date, added from the left in the order of the list; its cumulative value is the
  sum of the daily profits of the dates up to its own, added from the left; and
  \<open>totalProfit\<close> is the sum of the profits of all closed trades, added from the left in
  the order of the list. In exact arithmetic \<open>stats_r\<close> is \<open>stats\<close>, the cumulative value
  of a point is the sum of the profits of the closed trades dated on or before it, and
  the cumulative value of the last point is the \<open>totalProfit\<close> of \<open>stats\<close> on the same
  list. Open trades contribute nothing: the series of a list is the series of its
  closed trades, and it is empty exactly when the list has no closed trade, in
  particular for the empty list.
\<close>

theorem chartData_series:
  "map cp_date (chartData rnd ts) = sorted_list_of_set (date ` set (closedTrades ts))
   \<and> (\<forall>i < length (chartData rnd ts).
        dailyProfit (chartData rnd ts ! i)
          = Num (sum_r rnd (map (profit_r rnd)
                   [t \<leftarrow> closedTrades ts. date t = cp_date (chartData rnd ts ! i)]))
      \<and> cumulative (chartData rnd ts ! i)
          = Num (sum_r rnd
                   (map (\<lambda>d. sum_r rnd (map (profit_r rnd) [t \<leftarrow> closedTrades ts. date t = d]))
                      (take (Suc i) (map cp_date (chartData rnd ts))))))
   \<and> totalProfit (stats_r rnd ts) = Num (sum_r rnd (map (profit_r rnd) (closedTrades ts)))
   \<and> stats_r (\<lambda>x. x) ts = stats ts
   \<and> (\<forall>p \<in> set (chartData (\<lambda>x. x) ts).
        dailyProfit p = Num (sum_list (map profit [t \<leftarrow> closedTrades ts. date t = cp_date p]))
      \<and> cumulative p = Num (sum_list (map profit [t \<leftarrow> closedTrades ts. date t \<le> cp_date p])))
   \<and> (chartData (\<lambda>x. x) ts \<noteq> [] \<longrightarrow>
        cumulative (last (chartData (\<lambda>x. x) ts)) = totalProfit (stats ts))
   \<and> chartData rnd ts = chartData rnd (closedTrades ts)
   \<and> (chartData rnd ts = [] \<longleftrightarrow> closedTrades ts = [])
   \<and> chartData rnd [] = []"
proof -
  have 1: "map cp_date (chartData rnd ts) = sorted_list_of_set (date ` set (closedTrades ts))"
    by (rule chartData_dates)
  have 2: "\<forall>i < length (chartData rnd ts).
        dailyProfit (chartData rnd ts ! i)
          = Num (sum_r rnd (map (profit_r rnd)
                   [t \<leftarrow> closedTrades ts. date t = cp_date (chartData rnd ts ! i)]))
      \<and> cumulative (chartData rnd ts ! i)
          = Num (sum_r rnd
                   (map (\<lambda>d. sum_r rnd (map (profit_r rnd) [t \<leftarrow> closedTrades ts. date t = d]))
                      (take (Suc i) (map cp_date (chartData rnd ts)))))"
    unfolding 1 using chartData_nth [of _ rnd ts] by blast
  have 3: "totalProfit (stats_r rnd ts) = Num (sum_r rnd (map (profit_r rnd) (closedTrades ts)))"
    by (rule stats_r_totalProfit)
  have 4: "stats_r (\<lambda>x. x) ts = stats ts"
    by (rule stats_r_exact)
  have 5: "\<forall>p \<in> set (chartData (\<lambda>x. x) ts).
        dailyProfit p = Num (sum_list (map profit [t \<leftarrow> closedTrades ts. date t = cp_date p]))
      \<and> cumulative p = Num (sum_list (map profit [t \<leftarrow> closedTrades ts. date t \<le> cp_date p]))"
    using chartData_point_exact [of _ ts] by blast
  have 6: "chartData (\<lambda>x. x) ts \<noteq> [] \<longrightarrow>
        cumulative (last (chartData (\<lambda>x. x) ts)) = totalProfit (stats ts)"
    using chartData_last_exact [of ts] by blast
  have 7: "chartData rnd ts = chartData rnd (closedTrades ts)"
    by (rule chartData_closed)
  have 8: "chartData rnd ts = [] \<longleftrightarrow> closedTrades ts = []"
    by (rule chartData_empty_iff)
  have 9: "chartData rnd [] = []"
    using chartData_empty_iff [of rnd "[]"] by (simp add: closedTrades_def)
  from 1 2 3 4 5 6 7 8 9 show ?thesis by blast
qed

theorem chartData_series_witness:
  "chartData (\<lambda>x. x) (scenario1 @ scenario2)
     = [\<lparr>cp_date = ''2024-01-01'', dailyProfit = Num 500, cumulative = Num 500\<rparr>,
        \<lparr>cp_date = ''2024-01-02'', dailyProfit = Num (- 50), cumulative = Num 450\<rparr>]
   \<and> cumulative (last (chartData (\<lambda>x. x) (scenario1 @ scenario2)))
       = totalProfit (stats (scenario1 @ scenario2))
   \<and> totalProfit (stats (scenario1 @ scenario2)) = Num 450
   \<and> (1 :: nat) < length (chartData round_double rounding_trades)
   \<and> dailyProfit (chartData round_double rounding_trades ! 1)
       = Num (sum_r round_double (map (profit_r round_double)
                [t \<leftarrow> closedTrades rounding_trades. date t = ''2024-01-02'']))
   \<and> totalProfit (stats_r round_double rounding_trades)
       = Num (sum_r round_double (map (profit_r round_double) (closedTrades rounding_trades)))"
proof -
  let ?ts = "scenario1 @ scenario2"
  have c: "chartData (\<lambda>x. x) ?ts
     = [\<lparr>cp_date = ''2024-01-01'', dailyProfit = Num 500, cumulative = Num 500\<rparr>,
        \<lparr>cp_date = ''2024-01-02'', dailyProfit = Num (- 50), cumulative = Num 450\<rparr>]"
    by code_simp
  then have ne: "chartData (\<lambda>x. x) ?ts \<noteq> []" by simp
  with chartData_series [of "\<lambda>x. x" ?ts]
  have l: "cumulative (last (chartData (\<lambda>x. x) ?ts)) = totalProfit (stats ?ts)" by blast
  with c have t: "totalProfit (stats ?ts) = Num 450" by simp
  have n: "(1 :: nat) < length (chartData round_double rounding_trades)"
    by (simp add: rounding_chart)
  have d: "cp_date (chartData round_double rounding_trades ! 1) = ''2024-01-02''"
    by (simp add: rounding_chart)
  from chartData_series [of round_double rounding_trades] n
  have "dailyProfit (chartData round_double rounding_trades ! 1)
          = Num (sum_r round_double (map (profit_r round_double)
                   [t \<leftarrow> closedTrades rounding_trades.
                      date t = cp_date (chartData round_double rounding_trades ! 1)]))"
    by blast
  then have dp: "dailyProfit (chartData round_double rounding_trades ! 1)
       = Num (sum_r round_double (map (profit_r round_double)
                [t \<leftarrow> closedTrades rounding_trades. date t = ''2024-01-02'']))"
    unfolding d .
  from chartData_series [of round_double rounding_trades]
  have tp: "totalProfit (stats_r round_double rounding_trades)
       = Num (sum_r round_double (map (profit_r round_double) (closedTrades rounding_trades)))"
    by blast
  from c l t n dp tp show ?thesis by blast
qed

section \<open>Holdings\<close>

lemma distinct_summary_step:
  "distinct (map fst sm) \<Longrightarrow> distinct (map fst (summary_step t sm))"
  by (simp add: summary_step_def Let_def distinct_update)

lemma distinct_fold_summary:
  "distinct (map fst sm) \<Longrightarrow> distinct (map fst (fold summary_step ts sm))"
  by (induction ts arbitrary: sm) (simp_all add: distinct_summary_step)

lemma keys_summary_step: "fst ` set (summary_step t sm) = insert (symbol t) (fst ` set sm)"
  by (simp add: summary_step_def Let_def dom_update)

lemma keys_fold_summary:
  "fst ` set (fold summary_step ts sm) = fst ` set sm \<union> symbol ` set ts"
  by (induction ts arbitrary: sm) (auto simp: keys_summary_step)

lemma heldAmount_summary_step:
  "heldAmount (summary_step t sm) k
     = heldAmount sm k + (if symbol t = k then invested t else 0)"
  by (cases "map_of sm (symbol t)")
     (auto simp: summary_step_def Let_def heldAmount_def update_conv' invested_def)

lemma heldShares_summary_step:
  "heldShares (summary_step t sm) k
     = heldShares sm k + (if symbol t = k then quantity t else 0)"
  by (cases "map_of sm (symbol t)")
     (auto simp: summary_step_def Let_def heldShares_def update_conv')

lemma heldAmount_fold_summary:
  "heldAmount (fold summary_step ts sm) k
     = heldAmount sm k + sum_list (map invested [t \<leftarrow> ts. symbol t = k])"
  by (induction ts arbitrary: sm) (simp_all add: heldAmount_summary_step)

lemma heldShares_fold_summary:
  "heldShares (fold summary_step ts sm) k
     = heldShares sm k + sum_list (map quantity [t \<leftarrow> ts. symbol t = k])"
  by (induction ts arbitrary: sm) (simp_all add: heldShares_summary_step)

lemma foldl_plus_sum_list:
  "foldl (\<lambda>acc curr. acc + f curr) a xs = a + sum_list (map f xs)" for a :: rat
  by (induction xs arbitrary: a) (simp_all add: add.assoc)

lemma finite_values_Num: "finite_values (map Num xs) = Some xs"
  by (induction xs) simp_all

lemma sorted_wrt_amount_sort_key:
  "sorted_wrt (\<lambda>a b. amount a \<ge> amount b) (sort_key (\<lambda>r. - amount r) rows)"
proof -
  have "sorted (map (\<lambda>r. - amount r) (sort_key (\<lambda>r. - amount r) rows))"
    by (rule sorted_sort_key)
  then show ?thesis by (simp add: sorted_map)
qed

section \<open>The allocation\<close>

lemma portfolioData_rows:
  fixes ts :: "trade list"
  defines "sm \<equiv> fold summary_step ts []"
  defines "grand \<equiv> sum_list (map invested ts)"
  defines "am \<equiv> \<lambda>k. sum_list (map invested [t \<leftarrow> ts. symbol t = k])"
  defines "sh \<equiv> \<lambda>k. sum_list (map quantity [t \<leftarrow> ts. symbol t = k])"
  shows "portfolioData ts
     = Some (sort_key (\<lambda>r. - amount r)
          (map (\<lambda>k. \<lparr>alloc_symbol = k, shares = sh k, amount = am k,
                      avgBuy = js_divide (am k) (sh k),
                      percentage = (if grand > 0 then Num (am k / grand * 100) else Num 0)\<rparr>)
             (Object_keys sm)))"
    and "distinct (Object_keys sm)" and "set (Object_keys sm) = symbol ` set ts"
    and "sum_list (map am (Object_keys sm)) = grand"
proof -
  have dist: "distinct (map fst sm)"
    unfolding sm_def by (rule distinct_fold_summary) simp
  show dk: "distinct (Object_keys sm)"
    by (rule distinct_Object_keys [OF dist])
  show sk: "set (Object_keys sm) = symbol ` set ts"
    by (simp add: set_Object_keys sm_def keys_fold_summary)
  have entry: "\<exists>h. map_of sm k = Some h \<and> investedAmount h = am k \<and> totalShares h = sh k"
    if "k \<in> set (Object_keys sm)" for k
  proof -
    from that have "k \<in> fst ` set sm" by (simp add: set_Object_keys)
    then obtain h where h: "map_of sm k = Some h"
      by (cases "map_of sm k") (auto simp: map_of_eq_None_iff)
    have "heldAmount [] k = 0" "heldShares [] k = 0"
      by (simp_all add: heldAmount_def heldShares_def)
    then have "heldAmount sm k = am k" "heldShares sm k = sh k"
      unfolding sm_def am_def sh_def heldAmount_fold_summary heldShares_fold_summary
      by simp_all
    with h show ?thesis by (simp add: heldAmount_def heldShares_def)
  qed
  have vals: "Object_values sm = map (\<lambda>k. the (map_of sm k)) (Object_keys sm)"
    unfolding Object_values_def
  proof (rule map_filter_map_Some)
    fix k assume "k \<in> set (Object_keys sm)"
    from entry [OF this] show "map_of sm k = Some (the (map_of sm k))" by auto
  qed
  have "investedAmount (the (map_of sm k)) = am k" if "k \<in> set (Object_keys sm)" for k
    using entry [OF that] by auto
  then have "map investedAmount (Object_values sm) = map am (Object_keys sm)"
    unfolding vals by simp
  then have ti: "foldl (\<lambda>acc curr. acc + investedAmount curr) 0 (Object_values sm)
      = sum_list (map am (Object_keys sm))"
    by (simp add: foldl_plus_sum_list)
  have "sum_list (map am (Object_keys sm)) = sum am (set (Object_keys sm))"
    by (rule sum_list_distinct_conv_sum_set [OF dk])
  also have "\<dots> = sum_list (map invested [t \<leftarrow> ts. symbol t \<in> set (Object_keys sm)])"
    unfolding am_def by (rule sum_by_key) simp
  also have "[t \<leftarrow> ts. symbol t \<in> set (Object_keys sm)] = ts"
    by (simp add: sk filter_id_conv)
  finally show tot: "sum_list (map am (Object_keys sm)) = grand"
    by (simp add: grand_def)
  let ?mk = "\<lambda>k. \<lparr>alloc_symbol = k, shares = sh k, amount = am k,
                      avgBuy = js_divide (am k) (sh k),
                      percentage = (if grand > 0 then Num (am k / grand * 100) else Num 0)\<rparr>"
  have pos: "grand > 0 \<Longrightarrow> grand \<noteq> 0" by simp
  have "those
     (map (\<lambda>symbol.
             map_option
               (\<lambda>data.
                  \<lparr>alloc_symbol = symbol, shares = totalShares data,
                   amount = investedAmount data,
                   avgBuy = js_divide (investedAmount data) (totalShares data),
                   percentage =
                     (if grand > 0
                      then js_times (js_divide (investedAmount data) grand) 100
                      else Num 0)\<rparr>)
               (map_of sm symbol))
        (Object_keys sm))
     = Some (map ?mk (Object_keys sm))"
  proof (rule those_map_Some)
    fix k assume "k \<in> set (Object_keys sm)"
    from entry [OF this] obtain h where
      h: "map_of sm k = Some h" "investedAmount h = am k" "totalShares h = sh k" by blast
    show "map_option
               (\<lambda>data.
                  \<lparr>alloc_symbol = k, shares = totalShares data,
                   amount = investedAmount data,
                   avgBuy = js_divide (investedAmount data) (totalShares data),
                   percentage =
                     (if grand > 0
                      then js_times (js_divide (investedAmount data) grand) 100
                      else Num 0)\<rparr>)
               (map_of sm k) = Some (?mk k)"
      using pos by (simp add: h js_divide_def)
  qed
  then show "portfolioData ts = Some (sort_key (\<lambda>r. - amount r) (map ?mk (Object_keys sm)))"
    unfolding portfolioData_def Let_def sm_def [symmetric] ti tot by simp
qed


lemma sum_list_scaled:
  "sum_list (map (\<lambda>r. f r / c * 100) rows) = sum_list (map f rows) / c * 100" for c :: rat
  by (induction rows) (simp_all add: add_divide_distrib distrib_right)

section \<open>Claim about the portfolio allocation\<close>

text \<open>
  C8. \<open>portfolioData\<close> returns a list of rows for every trade list. The rows have one
  row per distinct symbol of the list and are sorted by \<open>amount\<close> (the invested amount)
  descending; the amount of a row is the sum of \<open>buyPrice * quantity\<close> over the trades of
  its symbol, open and closed alike. When the total invested is positive, every
  percentage is finite, it is the share of the row's amount in the total times 100, and
  the percentages sum to 100; when the total is zero (or negative) every percentage is 0.
\<close>

theorem portfolioData_allocation:
  "\<exists>rows. portfolioData ts = Some rows
     \<and> distinct (map alloc_symbol rows)
     \<and> set (map alloc_symbol rows) = symbol ` set ts
     \<and> sorted_wrt (\<lambda>a b. amount a \<ge> amount b) rows
     \<and> (\<forall>r \<in> set rows.
           amount r = sum_list (map invested [t \<leftarrow> ts. symbol t = alloc_symbol r])
         \<and> shares r = sum_list (map quantity [t \<leftarrow> ts. symbol t = alloc_symbol r]))
     \<and> sum_list (map amount rows) = sum_list (map invested ts)
     \<and> (0 < sum_list (map invested ts) \<longrightarrow>
          (\<exists>ps. finite_values (map percentage rows) = Some ps
              \<and> ps = map (\<lambda>r. amount r / sum_list (map invested ts) * 100) rows
              \<and> sum_list ps = 100))
     \<and> (sum_list (map invested ts) \<le> 0 \<longrightarrow> (\<forall>r \<in> set rows. percentage r = Num 0))"
proof -
  define sm where "sm = fold summary_step ts []"
  define grand where "grand = sum_list (map invested ts)"
  define am where "am = (\<lambda>k. sum_list (map invested [t \<leftarrow> ts. symbol t = k]))"
  define sh where "sh = (\<lambda>k. sum_list (map quantity [t \<leftarrow> ts. symbol t = k]))"
  define mk where "mk = (\<lambda>k. \<lparr>alloc_symbol = k, shares = sh k, amount = am k,
                      avgBuy = js_divide (am k) (sh k),
                      percentage = (if grand > 0 then Num (am k / grand * 100) else Num 0)\<rparr>)"
  define rows where "rows = sort_key (\<lambda>r. - amount r) (map mk (Object_keys sm))"
  have r1: "portfolioData ts = Some rows"
    unfolding rows_def mk_def am_def sh_def grand_def sm_def by (rule portfolioData_rows(1))
  have R: "distinct (Object_keys sm)" "set (Object_keys sm) = symbol ` set ts"
    "sum_list (map am (Object_keys sm)) = grand"
    unfolding am_def grand_def sm_def by (rule portfolioData_rows(2-4))+
  have ms: "mset rows = mset (map mk (Object_keys sm))"
    by (simp add: rows_def)
  have sym: "map alloc_symbol (map mk (Object_keys sm)) = Object_keys sm"
    by (simp add: mk_def o_def)
  have msym: "mset (map alloc_symbol rows) = mset (Object_keys sm)"
    using ms sym by (metis mset_map)
  have r2: "distinct (map alloc_symbol rows)"
    using R(1) msym by (metis mset_eq_imp_distinct_iff)
  have r3: "set (map alloc_symbol rows) = symbol ` set ts"
    using R(2) msym by (metis set_mset_mset)
  have r4: "sorted_wrt (\<lambda>a b. amount a \<ge> amount b) rows"
    unfolding rows_def by (rule sorted_wrt_amount_sort_key)
  have row: "\<exists>k. r = mk k" if "r \<in> set rows" for r
    using that by (auto simp: rows_def)
  have r5: "\<forall>r \<in> set rows.
           amount r = sum_list (map invested [t \<leftarrow> ts. symbol t = alloc_symbol r])
         \<and> shares r = sum_list (map quantity [t \<leftarrow> ts. symbol t = alloc_symbol r])"
  proof
    fix r assume "r \<in> set rows"
    from row [OF this] obtain k where "r = mk k" by blast
    then show "amount r = sum_list (map invested [t \<leftarrow> ts. symbol t = alloc_symbol r])
         \<and> shares r = sum_list (map quantity [t \<leftarrow> ts. symbol t = alloc_symbol r])"
      by (simp add: mk_def am_def sh_def)
  qed
  have "mset (map amount rows) = mset (map am (Object_keys sm))"
  proof -
    have "map amount (map mk (Object_keys sm)) = map am (Object_keys sm)"
      by (simp add: mk_def o_def)
    with ms show ?thesis by (metis mset_map)
  qed
  then have "sum_list (map amount rows) = sum_list (map am (Object_keys sm))"
    by (metis sum_mset_sum_list)
  with R(3) have r6: "sum_list (map amount rows) = grand" by simp
  have r7: "\<exists>ps. finite_values (map percentage rows) = Some ps
              \<and> ps = map (\<lambda>r. amount r / grand * 100) rows
              \<and> sum_list ps = 100" if pos: "0 < grand"
  proof -
    have "percentage r = Num (amount r / grand * 100)" if "r \<in> set rows" for r
    proof -
      from row [OF that] obtain k where "r = mk k" by blast
      then show ?thesis using pos by (simp add: mk_def)
    qed
    then have "map percentage rows = map Num (map (\<lambda>r. amount r / grand * 100) rows)"
      by simp
    then have "finite_values (map percentage rows)
        = Some (map (\<lambda>r. amount r / grand * 100) rows)"
      by (simp only: finite_values_Num)
    moreover have "sum_list (map (\<lambda>r. amount r / grand * 100) rows) = 100"
      unfolding sum_list_scaled r6 using pos by simp
    ultimately show ?thesis by blast
  qed
  have r8: "\<forall>r \<in> set rows. percentage r = Num 0" if "grand \<le> 0"
  proof
    fix r assume "r \<in> set rows"
    from row [OF this] obtain k where "r = mk k" by blast
    then show "percentage r = Num 0" using that by (simp add: mk_def)
  qed
  from r1 r2 r3 r4 r5 r6 r7 r8 show ?thesis
    unfolding grand_def by blast
qed

text \<open>The allocation of the trades of Scenarios 1 and 4 and the trade of 2100.\<close>

lemma portfolio_example:
  "portfolioData (scenario1 @ scenario4 @ [future_trade])
     = Some [\<lparr>alloc_symbol = ''AAPL'', shares = 16, amount = 1350,
              avgBuy = Num (675 / 8), percentage = Num (300 / 7)\<rparr>,
             \<lparr>alloc_symbol = ''NVDA'', shares = 3, amount = 1200, avgBuy = Num 400,
              percentage = Num (800 / 21)\<rparr>,
             \<lparr>alloc_symbol = ''MSFT'', shares = 2, amount = 600, avgBuy = Num 300,
              percentage = Num (400 / 21)\<rparr>]"
  by code_simp

theorem portfolioData_allocation_witness:
  "portfolioData (scenario1 @ scenario4 @ [future_trade])
     = Some [\<lparr>alloc_symbol = ''AAPL'', shares = 16, amount = 1350,
              avgBuy = Num (675 / 8), percentage = Num (300 / 7)\<rparr>,
             \<lparr>alloc_symbol = ''NVDA'', shares = 3, amount = 1200, avgBuy = Num 400,
              percentage = Num (800 / 21)\<rparr>,
             \<lparr>alloc_symbol = ''MSFT'', shares = 2, amount = 600, avgBuy = Num 300,
              percentage = Num (400 / 21)\<rparr>]
   \<and> 0 < sum_list (map invested (scenario1 @ scenario4 @ [future_trade]))
   \<and> sum_list [300 / 7, 800 / 21, 400 / 21 :: rat] = 100
   \<and> sum_list (map invested []) \<le> 0
   \<and> portfolioData [] = Some []"
proof -
  have pos: "0 < sum_list (map invested (scenario1 @ scenario4 @ [future_trade]))"
    by (simp add: invested_def scenario1_def scenario4_eq future_trade_def)
  from portfolioData_allocation [of "[]"] obtain rows where
    "portfolioData [] = Some rows" "set (map alloc_symbol rows) = symbol ` set ([] :: trade list)"
    by blast
  then have "portfolioData [] = Some []" by auto
  with pos portfolio_example show ?thesis by simp
qed

section \<open>Trade history\<close>

lemma sort_key_fixed_iff: "sort_key f xs = xs \<longleftrightarrow> sorted (map f xs)"
  by (metis sort_key_id_if_sorted sorted_sort_key)

lemma TradeHistory_effect:
  assumes "arrays h r = Some ts"
  shows "TradeHistory r h
     = (sort_key (\<lambda>t. - timestamp t) ts,
        h\<lparr>arrays := (arrays h)(r \<mapsto> sort_key (\<lambda>t. - timestamp t) ts)\<rparr>)"
proof (cases "ts = []")
  case True
  have "h\<lparr>arrays := (arrays h)(r \<mapsto> [])\<rparr> = h"
    using assms True by (simp add: fun_upd_idem)
  then show ?thesis using assms True by (simp add: TradeHistory_def)
next
  case False
  then show ?thesis using assms by (simp add: TradeHistory_def Let_def)
qed

section \<open>Claim about the trade history\<close>

text \<open>
  C10, as stated: rendering permutes the caller's filtered list, which is not left in
  its original order. On the dashboard (App.tsx 387 to 391) the history receives
  \<open>filteredTrades.slice(0, 5)\<close>: for the two trades of Scenario 4, in ascending order of
  timestamp, the rows show them in descending order, and the filtered list is as it
  was. On the Trade Log tab a list that is already in descending order is left in its
  order.
\<close>

theorem filtered_list_left_in_order:
  "arrays (heap_of scenario4) 0 = Some scenario4
   \<and> fst (render_dashboard_history 0 (heap_of scenario4)) = rev scenario4
   \<and> arrays (snd (render_dashboard_history 0 (heap_of scenario4))) 0 = Some scenario4
   \<and> arrays (heap_of (rev scenario4)) 0 = Some (rev scenario4)
   \<and> arrays (snd (render_log_history 0 (heap_of (rev scenario4)))) 0 = Some (rev scenario4)"
  by (simp add: heap_of_def render_dashboard_history_def render_log_history_def alloc_def
        TradeHistory_def scenario4_eq Let_def)

text \<open>
  C10, amended: \<open>TradeHistory\<close> sorts the array it receives in place by descending
  timestamp; the sort is stable and changes no trade. On the Trade Log tab, where App
  passes \<open>filteredTrades\<close> itself, the filtered list is afterwards its own sort: a
  permutation of it, in descending order of timestamp, equal to the original exactly
  when the original was in descending order already; no other array changes. On the
  dashboard, where App passes the copy \<open>filteredTrades.slice(0, 5)\<close>, the rows show the
  sorted first five trades and the filtered list, like every array that existed before,
  is unchanged.
\<close>

theorem TradeHistory_sorts_in_place:
  "(arrays h f = Some ts \<longrightarrow>
      arrays (snd (render_log_history f h)) f = Some (sort_key (\<lambda>t. - timestamp t) ts)
    \<and> fst (render_log_history f h) = sort_key (\<lambda>t. - timestamp t) ts
    \<and> mset (sort_key (\<lambda>t. - timestamp t) ts) = mset ts
    \<and> sorted_wrt (\<lambda>a b. timestamp a \<ge> timestamp b) (sort_key (\<lambda>t. - timestamp t) ts)
    \<and> (sort_key (\<lambda>t. - timestamp t) ts = ts \<longleftrightarrow> sorted_wrt (\<lambda>a b. timestamp a \<ge> timestamp b) ts)
    \<and> (\<forall>k. [t \<leftarrow> sort_key (\<lambda>t. - timestamp t) ts. timestamp t = k] = [t \<leftarrow> ts. timestamp t = k])
    \<and> (\<forall>r. r \<noteq> f \<longrightarrow> arrays (snd (render_log_history f h)) r = arrays h r))
   \<and> (arrays h f = Some ts \<longrightarrow> f < next_ref h \<longrightarrow>
        fst (render_dashboard_history f h) = sort_key (\<lambda>t. - timestamp t) (take 5 ts)
      \<and> arrays (snd (render_dashboard_history f h)) f = Some ts
      \<and> (\<forall>r. r \<noteq> next_ref h \<longrightarrow> arrays (snd (render_dashboard_history f h)) r = arrays h r))"
proof -
  let ?k = "\<lambda>t. - timestamp t"
  have s1: "sorted_wrt (\<lambda>a b. timestamp a \<ge> timestamp b) xs \<longleftrightarrow> sorted (map ?k xs)" for xs
    by (simp add: sorted_map)
  have log: "arrays (snd (render_log_history f h)) f = Some (sort_key ?k ts)
    \<and> fst (render_log_history f h) = sort_key ?k ts
    \<and> mset (sort_key ?k ts) = mset ts
    \<and> sorted_wrt (\<lambda>a b. timestamp a \<ge> timestamp b) (sort_key ?k ts)
    \<and> (sort_key ?k ts = ts \<longleftrightarrow> sorted_wrt (\<lambda>a b. timestamp a \<ge> timestamp b) ts)
    \<and> (\<forall>k. [t \<leftarrow> sort_key ?k ts. timestamp t = k] = [t \<leftarrow> ts. timestamp t = k])
    \<and> (\<forall>r. r \<noteq> f \<longrightarrow> arrays (snd (render_log_history f h)) r = arrays h r)"
    if a: "arrays h f = Some ts"
  proof -
    have st: "[t \<leftarrow> sort_key ?k ts. timestamp t = k] = [t \<leftarrow> ts. timestamp t = k]" for k
      using sort_key_stable [of ?k "- k" ts] by simp
    show ?thesis
      unfolding render_log_history_def TradeHistory_effect [OF a] s1
      by (simp add: sort_key_fixed_iff st)
  qed
  have dash: "fst (render_dashboard_history f h) = sort_key ?k (take 5 ts)
      \<and> arrays (snd (render_dashboard_history f h)) f = Some ts
      \<and> (\<forall>r. r \<noteq> next_ref h \<longrightarrow> arrays (snd (render_dashboard_history f h)) r = arrays h r)"
    if a: "arrays h f = Some ts" and b: "f < next_ref h"
  proof -
    let ?h1 = "h\<lparr>arrays := (arrays h)(next_ref h \<mapsto> take 5 ts), next_ref := Suc (next_ref h)\<rparr>"
    have c: "arrays ?h1 (next_ref h) = Some (take 5 ts)" by simp
    show ?thesis
      using a b
      by (simp add: render_dashboard_history_def alloc_def TradeHistory_effect [OF c])
  qed
  from log dash show ?thesis by blast
qed

theorem TradeHistory_sorts_in_place_witness:
  "arrays (heap_of scenario4) 0 = Some scenario4
   \<and> 0 < next_ref (heap_of scenario4)
   \<and> arrays (snd (render_log_history 0 (heap_of scenario4))) 0 = Some (rev scenario4)
   \<and> fst (render_dashboard_history 0 (heap_of scenario4)) = rev scenario4
   \<and> arrays (snd (render_dashboard_history 0 (heap_of scenario4))) 0 = Some scenario4"
proof -
  have a: "arrays (heap_of scenario4) 0 = Some scenario4" "0 < next_ref (heap_of scenario4)"
    by (simp_all add: heap_of_def)
  have s: "sort_key (\<lambda>t. - timestamp t) scenario4 = rev scenario4"
    "sort_key (\<lambda>t. - timestamp t) (take 5 scenario4) = rev scenario4"
    by (simp_all add: scenario4_eq)
  from TradeHistory_sorts_in_place [of "heap_of scenario4" 0 scenario4] a s
  show ?thesis by simp
qed

end
